theory Spec2Isabelle
  imports Main "HOL-Library.Word"
begin

unbundle bit_operations_syntax

section \<open>Go strings\<close>

text \<open>
  A Go string is a sequence of bytes; it is modelled by \<open>string\<close>, a list of 8-bit
  characters, so that \<open>length\<close> is Go's \<open>len\<close>. The functions of this section are the
  ones of the Go standard library that package \<open>jid\<close> calls (\<open>unicode/utf8\<close>,
  \<open>unicode\<close>, \<open>strings\<close>, \<open>regexp\<close>); each follows the documented behaviour of
  the library function it is named after.
\<close>

definition RuneError :: nat where
  "RuneError = 0xFFFD"

definition seqLen :: "nat \<Rightarrow> nat" where
  \<comment> \<open>length of the UTF-8 sequence announced by a leading byte, 0 for a byte that cannot lead\<close>
  "seqLen s0 =
     (if s0 < 0x80 then 1
      else if 0xC2 \<le> s0 \<and> s0 \<le> 0xDF then 2
      else if 0xE0 \<le> s0 \<and> s0 \<le> 0xEF then 3
      else if 0xF0 \<le> s0 \<and> s0 \<le> 0xF4 then 4
      else 0)"

definition acceptRange :: "nat \<Rightarrow> nat \<times> nat" where
  \<comment> \<open>the range of the second byte that a leading byte accepts\<close>
  "acceptRange s0 =
     (if s0 = 0xE0 then (0xA0, 0xBF)
      else if s0 = 0xED then (0x80, 0x9F)
      else if s0 = 0xF0 then (0x90, 0xBF)
      else if s0 = 0xF4 then (0x80, 0x8F)
      else (0x80, 0xBF))"

definition DecodeRune :: "nat list \<Rightarrow> nat \<times> nat" where
  \<comment> \<open>\<open>utf8.DecodeRuneInString\<close>: the first rune and its width; \<open>(RuneError, 1)\<close> on an
      invalid sequence, \<open>(RuneError, 0)\<close> on the empty string\<close>
  "DecodeRune bs =
     (case bs of
        [] \<Rightarrow> (RuneError, 0)
      | s0 # r \<Rightarrow>
          if s0 < 0x80 then (s0, 1)
          else if seqLen s0 = 0 \<or> length bs < seqLen s0 then (RuneError, 1)
          else
            let s1 = r ! 0 in
            if s1 < fst (acceptRange s0) \<or> snd (acceptRange s0) < s1 then (RuneError, 1)
            else if seqLen s0 \<le> 2 then ((s0 mod 32) * 64 + s1 mod 64, 2)
            else
              let s2 = r ! 1 in
              if s2 < 0x80 \<or> 0xBF < s2 then (RuneError, 1)
              else if seqLen s0 \<le> 3
                then ((s0 mod 16) * 4096 + (s1 mod 64) * 64 + s2 mod 64, 3)
              else
                let s3 = r ! 2 in
                if s3 < 0x80 \<or> 0xBF < s3 then (RuneError, 1)
                else ((s0 mod 8) * 262144 + (s1 mod 64) * 4096 + (s2 mod 64) * 64
                        + s3 mod 64, 4))"

definition DecodeRuneInString :: "string \<Rightarrow> nat \<times> nat" where
  "DecodeRuneInString s = DecodeRune (map of_char s)"

lemma DecodeRune_width: "bs \<noteq> [] \<Longrightarrow> 1 \<le> snd (DecodeRune bs)"
  by (cases bs) (simp_all add: DecodeRune_def Let_def)

lemma DecodeRuneInString_width: "s \<noteq> [] \<Longrightarrow> 1 \<le> snd (DecodeRuneInString s)"
  using DecodeRune_width [of "map of_char s"] by (simp add: DecodeRuneInString_def)

function runesOf :: "string \<Rightarrow> (nat \<times> string) list" where
  \<comment> \<open>the runes of a string in order, as a \<open>range\<close> loop over the string yields them,
      each with the bytes it was decoded from\<close>
  "runesOf [] = []"
| "runesOf (c # cs) =
     (let n = snd (DecodeRuneInString (c # cs))
      in (fst (DecodeRuneInString (c # cs)), take n (c # cs)) # runesOf (drop n (c # cs)))"
  by pat_completeness auto
termination
proof (relation "measure length")
  show "wf (measure length)" by simp
next
  fix c cs n
  assume "n = snd (DecodeRuneInString (c # cs))"
  moreover have "1 \<le> snd (DecodeRuneInString (c # cs))"
    by (rule DecodeRuneInString_width) simp
  ultimately show "(drop n (c # cs), c # cs) \<in> measure length"
    by simp
qed

definition ValidString :: "string \<Rightarrow> bool" where
  \<comment> \<open>\<open>utf8.ValidString\<close>: no position decodes to an invalid sequence\<close>
  "ValidString s = list_all (\<lambda>(r, bs). \<not> (r = RuneError \<and> length bs = 1)) (runesOf s)"

definition IsSpace :: "nat \<Rightarrow> bool" where
  \<comment> \<open>\<open>unicode.IsSpace\<close>: the code points with the Unicode White_Space property\<close>
  "IsSpace r =
     (r = 0x09 \<or> r = 0x0A \<or> r = 0x0B \<or> r = 0x0C \<or> r = 0x0D \<or> r = 0x20
      \<or> r = 0x85 \<or> r = 0xA0 \<or> r = 0x1680 \<or> (0x2000 \<le> r \<and> r \<le> 0x200A)
      \<or> r = 0x2028 \<or> r = 0x2029 \<or> r = 0x202F \<or> r = 0x205F \<or> r = 0x3000)"

definition TrimSpace :: "string \<Rightarrow> string" where
  \<comment> \<open>\<open>strings.TrimSpace\<close>: leading and trailing white space removed\<close>
  "TrimSpace s =
     concat (map snd (rev (dropWhile (\<lambda>(r, bs). IsSpace r)
       (rev (dropWhile (\<lambda>(r, bs). IsSpace r) (runesOf s))))))"

fun fieldsOf :: "(nat \<times> string) list \<Rightarrow> string \<Rightarrow> string list" where
  "fieldsOf [] cur = (if cur = [] then [] else [cur])"
| "fieldsOf ((r, bs) # rs) cur =
     (if IsSpace r then (if cur = [] then fieldsOf rs [] else cur # fieldsOf rs [])
      else fieldsOf rs (cur @ bs))"

definition Fields :: "string \<Rightarrow> string list" where
  \<comment> \<open>\<open>strings.Fields\<close>: the maximal runs of non-space runes\<close>
  "Fields s = fieldsOf (runesOf s) []"

definition ContainsAny :: "string \<Rightarrow> string \<Rightarrow> bool" where
  \<comment> \<open>\<open>strings.ContainsAny\<close>, for a set \<open>chars\<close> of ASCII characters\<close>
  "ContainsAny s chars = (\<exists>c \<in> set s. c \<in> set chars)"

definition ContainsRune :: "string \<Rightarrow> char \<Rightarrow> bool" where
  \<comment> \<open>\<open>strings.ContainsRune\<close>, for an ASCII rune\<close>
  "ContainsRune s c = (c \<in> set s)"

definition IndexRune :: "string \<Rightarrow> char \<Rightarrow> int" where
  \<comment> \<open>\<open>strings.IndexRune\<close>, for an ASCII rune: the index of its first occurrence, or -1\<close>
  "IndexRune s c = (if c \<in> set s then int (length (takeWhile (\<lambda>x. x \<noteq> c) s)) else - 1)"

definition TrimRight :: "string \<Rightarrow> char \<Rightarrow> string" where
  \<comment> \<open>\<open>strings.TrimRight\<close> with a one-character cutset: every trailing occurrence removed\<close>
  "TrimRight s c = rev (dropWhile (\<lambda>x. x = c) (rev s))"

definition TrimPrefix :: "string \<Rightarrow> string \<Rightarrow> string" where
  "TrimPrefix s p = (if take (length p) s = p then drop (length p) s else s)"

definition TrimSuffix :: "string \<Rightarrow> string \<Rightarrow> string" where
  "TrimSuffix s p =
     (if length p \<le> length s \<and> drop (length s - length p) s = p
      then take (length s - length p) s else s)"

definition slice :: "string \<Rightarrow> int \<Rightarrow> int \<Rightarrow> string option" where
  \<comment> \<open>the slice expression \<open>s[lo:hi]\<close>; \<open>None\<close> is the run-time panic on bad bounds\<close>
  "slice s lo hi =
     (if 0 \<le> lo \<and> lo \<le> hi \<and> hi \<le> int (length s)
      then Some (take (nat hi - nat lo) (drop (nat lo) s)) else None)"

subsection \<open>The regular expression \<open>JIDMatch\<close>\<close>

definition notSep :: "char \<Rightarrow> bool" where
  \<comment> \<open>the character class \<open>[^@/]\<close>\<close>
  "notSep c = (c \<noteq> CHR ''@'' \<and> c \<noteq> CHR ''/'')"

definition matchHere :: "string \<Rightarrow> bool" where
  \<comment> \<open>\<open>[^@/]+@[^@/]+/[^@/]+\<close> matches a prefix of the string\<close>
  "matchHere s =
     (takeWhile notSep s \<noteq> [] \<and>
      (case dropWhile notSep s of
         [] \<Rightarrow> False
       | c1 # t1 \<Rightarrow>
           c1 = CHR ''@'' \<and> takeWhile notSep t1 \<noteq> [] \<and>
           (case dropWhile notSep t1 of
              [] \<Rightarrow> False
            | c2 # t2 \<Rightarrow> c2 = CHR ''/'' \<and> (case t2 of [] \<Rightarrow> False | c3 # t3 \<Rightarrow> notSep c3))))"

fun MatchString_JIDMatch :: "string \<Rightarrow> bool" where
  \<comment> \<open>\<open>regexp.MatchString(JIDMatch, s)\<close>: the expression is not anchored, so it matches
      when it matches at some position of the string\<close>
  "MatchString_JIDMatch [] = False"
| "MatchString_JIDMatch (c # cs) = (matchHere (c # cs) \<or> MatchString_JIDMatch cs)"

section \<open>Package jid\<close>

datatype jid_error =
    ERROR_INVALID_STRING
  | ERROR_EMPTY_PART
  | ERROR_LONG_PART
  | ERROR_NO_RESOURCE
  | ERROR_INVALID_JID
  | ERROR_ILLEGAL_RUNE
  | ERROR_ILLEGAL_SPACE
  | PANIC_SLICE_BOUNDS  \<comment> \<open>not an error value: the run-time panic of a slice expression\<close>

record JID =
  localpart :: string
  domainpart :: string
  resourcepart :: string

definition zeroJID :: JID where
  \<comment> \<open>the zero value \<open>JID{}\<close>\<close>
  "zeroJID = \<lparr>localpart = [], domainpart = [], resourcepart = []\<rparr>"

text \<open>
  Two library functions are parameters of the model: \<open>NF\<close> stands for \<open>NF.String\<close>,
  the NFKC normalisation of package \<open>norm\<close>, and \<open>isIPv6Addr\<close> for the test
  \<open>ip := net.ParseIP(normalized); ip != nil && ip.To4() == nil\<close>.
\<close>

definition NormalizeJIDPart :: "(string \<Rightarrow> string) \<Rightarrow> string \<Rightarrow> jid_error + string" where
  "NormalizeJIDPart NF part =
     (let normalized = NF part in
      if length normalized = 0 then Inl ERROR_EMPTY_PART
      else if length normalized > 1023 then Inl ERROR_LONG_PART
      else if \<not> ValidString part then Inl ERROR_INVALID_STRING
      else if ContainsAny part [CHR 0x22, CHR ''&'', CHR 0x27, CHR ''/'', CHR '':'',
                                CHR ''<'', CHR ''>'', CHR ''@''] then Inl ERROR_ILLEGAL_RUNE
      else if length (Fields ([CHR 0x27] @ normalized @ [CHR 0x27])) \<noteq> 1
        then Inl ERROR_ILLEGAL_SPACE
      else Inr normalized)"

definition SetLocalPart :: "(string \<Rightarrow> string) \<Rightarrow> JID \<Rightarrow> string \<Rightarrow> JID \<times> jid_error option" where
  "SetLocalPart NF address lp =
     (case NormalizeJIDPart NF lp of
        Inl err \<Rightarrow> (address, Some err)
      | Inr normalized \<Rightarrow> (address\<lparr>localpart := normalized\<rparr>, None))"

definition SetDomainPart ::
  "(string \<Rightarrow> string) \<Rightarrow> (string \<Rightarrow> bool) \<Rightarrow> JID \<Rightarrow> string \<Rightarrow> JID \<times> jid_error option" where
  "SetDomainPart NF isIPv6Addr address dp =
     (case NormalizeJIDPart NF (TrimRight dp CHR ''.'') of
        Inl err \<Rightarrow> (address, Some err)
      | Inr normalized \<Rightarrow>
          (let n1 = TrimPrefix normalized ''['';
               n2 = TrimSuffix n1 '']'';
               n3 = (if isIPv6Addr n2 then ''['' @ n2 @ '']'' else n2)
           in (address\<lparr>domainpart := n3\<rparr>, None)))"

definition SetResourcePart :: "(string \<Rightarrow> string) \<Rightarrow> JID \<Rightarrow> string \<Rightarrow> JID \<times> jid_error option" where
  "SetResourcePart NF address rp =
     (case NormalizeJIDPart NF rp of
        Inl err \<Rightarrow> (address, Some err)
      | Inr normalized \<Rightarrow> (address\<lparr>resourcepart := normalized\<rparr>, None))"

definition String :: "JID \<Rightarrow> string" where
  "String address = localpart address @ ''@'' @ domainpart address @ ''/'' @ resourcepart address"

definition Bare :: "JID \<Rightarrow> string" where
  "Bare address = localpart address @ ''@'' @ domainpart address"

definition Equals :: "JID \<Rightarrow> JID \<Rightarrow> bool" where
  "Equals jid jid2 =
     (localpart jid = localpart jid2 \<and> domainpart jid = domainpart jid2
      \<and> resourcepart jid = resourcepart jid2)"

definition FromString ::
  "(string \<Rightarrow> string) \<Rightarrow> (string \<Rightarrow> bool) \<Rightarrow> JID \<Rightarrow> string \<Rightarrow> JID \<times> jid_error option" where
  \<comment> \<open>the receiver is updated in place: the parts set before an error stay set;
      \<open>regexp.MatchString\<close> returns an error only for a pattern that does not compile,
      which \<open>JIDMatch\<close> does\<close>
  "FromString NF isIPv6Addr address s0 =
     (if \<not> ValidString s0 then (address, Some ERROR_INVALID_STRING)
      else if \<not> MatchString_JIDMatch s0 \<and> \<not> ContainsRune s0 CHR ''/''
        then (address, Some ERROR_NO_RESOURCE)
      else if \<not> MatchString_JIDMatch s0 then (address, Some ERROR_INVALID_JID)
      else
        let s = TrimSpace s0;
            atLoc = IndexRune s CHR ''@'';
            slashLoc = IndexRune s CHR ''/''
        in case slice s 0 atLoc of
             None \<Rightarrow> (address, Some PANIC_SLICE_BOUNDS)
           | Some lp \<Rightarrow>
               (case SetLocalPart NF address lp of
                  (a1, Some err) \<Rightarrow> (a1, Some err)
                | (a1, None) \<Rightarrow>
                    (case slice s (atLoc + 1) slashLoc of
                       None \<Rightarrow> (a1, Some PANIC_SLICE_BOUNDS)
                     | Some dp \<Rightarrow>
                         (case SetDomainPart NF isIPv6Addr a1 dp of
                            (a2, Some err) \<Rightarrow> (a2, Some err)
                          | (a2, None) \<Rightarrow>
                              (case slice s (slashLoc + 1) (int (length s)) of
                                 None \<Rightarrow> (a2, Some PANIC_SLICE_BOUNDS)
                               | Some rp \<Rightarrow> SetResourcePart NF a2 rp)))))"

definition NewJID ::
  "(string \<Rightarrow> string) \<Rightarrow> (string \<Rightarrow> bool) \<Rightarrow> string \<Rightarrow> JID \<times> jid_error option" where
  "NewJID NF isIPv6Addr s = FromString NF isIPv6Addr zeroJID s"

text \<open>
  The instances of the two parameters used to evaluate the model on ASCII host names:
  NFKC leaves every ASCII string unchanged, and \<open>net.ParseIP\<close> returns nil for a string
  without a colon or a dot-separated IPv4 form, so no IPv6 address is found in a string
  without a colon.
\<close>

definition NF_ascii :: "string \<Rightarrow> string" where
  "NF_ascii s = s"

definition isIPv6_none :: "string \<Rightarrow> bool" where
  "isIPv6_none s = False"

section \<open>XML tokens, decoder, encoder and transport\<close>

text \<open>
  The session code works on three library objects: an \<open>xml.Decoder\<close>, an
  \<open>xml.Encoder\<close> and the byte transport (an \<open>io.ReadWriteCloser\<close>). Each is modelled
  by the state that the session code can observe through the calls it makes.
\<close>

datatype 'a outcome =
    Panic string  \<comment> \<open>the call panics with this message\<close>
  | Return 'a

datatype error =
    EOF                     \<comment> \<open>\<open>io.EOF\<close>\<close>
  | ErrUnexpectedEOF        \<comment> \<open>\<open>io.ErrUnexpectedEOF\<close>\<close>
  | SyntaxError string      \<comment> \<open>an \<open>xml.SyntaxError\<close> of the decoder\<close>
  | EncodeError string      \<comment> \<open>an error of the encoder or of its writer\<close>
  | ErrTLSUpgradeFailed
  | ErrInputStreamClosed    \<comment> \<open>the sentinel \<open>ErrInputStreamClosed\<close> of the session\<close>
  | ErrorsNew nat string    \<comment> \<open>the value that a call of \<open>errors.New\<close> allocates, with its
                                address and message: values at two addresses are two errors\<close>
  | ErrOutputStreamClosed   \<comment> \<open>\<open>errors.New("XML output stream is closed")\<close>\<close>
  | BadFormat | BadNamespacePrefix | InvalidXML | PolicyViolation | RestrictedXML
  | UnsupportedStanzaType   \<comment> \<open>the stream errors used by the negotiation code\<close>
  | ErrNoMatchingMechanisms \<comment> \<open>\<open>errors.New(`No matching SASL mechanisms found`)\<close>\<close>
  | SASLFailure string      \<comment> \<open>a decoded \<open>saslerr.Failure\<close>, with its condition\<close>
  | UnmarshalError string   \<comment> \<open>an \<open>xml.UnmarshalError\<close> of \<open>DecodeElement\<close>\<close>
  | Canceled                \<comment> \<open>\<open>ctx.Err()\<close> of a context that is done\<close>
  | OtherError string

record xml_Name =
  Space :: string
  Local :: string

datatype Token =
    StartElement xml_Name "(xml_Name \<times> string) list"
  | EndElement xml_Name
  | CharData string
  | Comment string
  | ProcInst string string
  | Directive string

fun End :: "Token \<Rightarrow> Token" where
  \<comment> \<open>\<open>StartElement.End\<close>\<close>
  "End (StartElement n attrs) = EndElement n"
| "End t = t"

record Decoder =
  pending :: "Token list"  \<comment> \<open>the tokens that the decoder will still yield\<close>
  failure :: error         \<comment> \<open>what \<open>Token\<close> returns after them: \<open>io.EOF\<close> or a syntax error\<close>

definition Decoder_Token :: "Decoder \<Rightarrow> (error + Token) \<times> Decoder" where
  "Decoder_Token d =
     (case pending d of
        [] \<Rightarrow> (Inl (failure d), d)
      | t # ts \<Rightarrow> (Inr t, d\<lparr>pending := ts\<rparr>))"

fun skipTokens :: "nat \<Rightarrow> Token list \<Rightarrow> (Token list) option" where
  \<comment> \<open>the tokens left after the end element that closes the current element, at nesting
      depth \<open>n\<close> below it; \<open>None\<close> when the input ends first\<close>
  "skipTokens n [] = None"
| "skipTokens n (StartElement nm attrs # ts) = skipTokens (Suc n) ts"
| "skipTokens n (EndElement nm # ts) = (case n of 0 \<Rightarrow> Some ts | Suc m \<Rightarrow> skipTokens m ts)"
| "skipTokens n (t # ts) = skipTokens n ts"

definition Decoder_Skip :: "Decoder \<Rightarrow> error option \<times> Decoder" where
  \<comment> \<open>\<open>Decoder.Skip\<close>: reads tokens until the end element matching the start element
      consumed last, skipping nested elements\<close>
  "Decoder_Skip d =
     (case skipTokens 0 (pending d) of
        None \<Rightarrow> (Some (failure d), d\<lparr>pending := []\<rparr>)
      | Some ts \<Rightarrow> (None, d\<lparr>pending := ts\<rparr>))"

record Encoder =
  emitted :: "Token list"  \<comment> \<open>the tokens encoded so far\<close>
  refuse :: "Token list \<Rightarrow> Token \<Rightarrow> error option"
    \<comment> \<open>the error with which \<open>EncodeToken\<close> refuses a token after the ones emitted\<close>
  flushErr :: "Token list \<Rightarrow> error option"
    \<comment> \<open>the error with which \<open>Flush\<close> fails after the ones emitted\<close>

definition EncodeToken :: "Encoder \<Rightarrow> Token \<Rightarrow> error option \<times> Encoder" where
  "EncodeToken e t =
     (case refuse e (emitted e) t of
        Some err \<Rightarrow> (Some err, e)
      | None \<Rightarrow> (None, e\<lparr>emitted := emitted e @ [t]\<rparr>))"

definition Flush :: "Encoder \<Rightarrow> error option \<times> Encoder" where
  "Flush e = (flushErr e (emitted e), e)"

datatype tls_role = ClientSide | ServerSide

record RWC =
  netConn :: bool            \<comment> \<open>the dynamic type implements \<open>net.Conn\<close>\<close>
  layers :: "tls_role list"  \<comment> \<open>the TLS layers wrapped around the connection, outermost first\<close>
  rbuf :: string             \<comment> \<open>the bytes that can be read\<close>
  wbuf :: string             \<comment> \<open>the bytes written\<close>
  werr :: "error option"     \<comment> \<open>the error with which \<open>Write\<close> fails, if it does\<close>

definition RWC_Read :: "RWC \<Rightarrow> nat \<Rightarrow> (string \<times> error option) \<times> RWC" where
  \<comment> \<open>\<open>Read(b)\<close> with \<open>len(b) = n\<close>, as \<open>bytes.Buffer\<close> does it: the bytes read and the
      error; at the end of the input the error is \<open>io.EOF\<close>\<close>
  "RWC_Read rw n =
     (if rbuf rw = [] then (if n = 0 then (([], None), rw) else (([], Some EOF), rw))
      else ((take n (rbuf rw), None), rw\<lparr>rbuf := drop n (rbuf rw)\<rparr>))"

definition RWC_Write :: "RWC \<Rightarrow> string \<Rightarrow> (nat \<times> error option) \<times> RWC" where
  "RWC_Write rw b =
     (case werr rw of
        Some err \<Rightarrow> ((0, Some err), rw)
      | None \<Rightarrow> ((length b, None), rw\<lparr>wbuf := wbuf rw @ b\<rparr>))"

definition tls_Client :: "RWC \<Rightarrow> RWC" where
  \<comment> \<open>\<open>tls.Client(conn, config)\<close>: the result is a \<open>*tls.Conn\<close>, again a \<open>net.Conn\<close>\<close>
  "tls_Client rw = rw\<lparr>netConn := True, layers := ClientSide # layers rw\<rparr>"

definition tls_Server :: "RWC \<Rightarrow> RWC" where
  "tls_Server rw = rw\<lparr>netConn := True, layers := ServerSide # layers rw\<rparr>"

section \<open>Session state\<close>

type_synonym SessionState = "16 word"

text \<open>
  Modelled from the spec: the declaration of \<open>SessionState\<close> and of its bit constants is
  not among the sources. The spec (section 3) describes the state as a bitmask of
  orthogonal, OR-combined bits \<open>Received\<close>, \<open>Secure\<close>, \<open>Authn\<close>, \<open>Ready\<close>,
  \<open>InputStreamClosed\<close>, \<open>OutputStreamClosed\<close>; the sources use \<open>Bind\<close>,
  \<open>StreamRestartRequired\<close> and \<open>EndStream\<close> in the same way. Each constant is one bit
  of its own; no property below depends on which bit it is.
\<close>

definition Secure :: SessionState where "Secure = 0x1"
definition Authn :: SessionState where "Authn = 0x2"
definition Bind :: SessionState where "Bind = 0x4"
definition Ready :: SessionState where "Ready = 0x8"
definition Received :: SessionState where "Received = 0x10"
definition OutputStreamClosed :: SessionState where "OutputStreamClosed = 0x20"
definition InputStreamClosed :: SessionState where "InputStreamClosed = 0x40"
definition StreamRestartRequired :: SessionState where "StreamRestartRequired = 0x80"
definition EndStream :: SessionState where "EndStream = 0x100"

type_synonym Context = "error option"
  \<comment> \<open>what \<open>ctx.Err()\<close> returns: \<open>None\<close> while the context is not done; a context
      that becomes done in the middle of a call is outside this sequential model\<close>

record Config =
  Location :: "JID option"
  Origin :: "JID option"
  Identity :: string
  Password :: string

record 'dat Conn =
  config :: Config
  rwc :: RWC
  state :: SessionState
  origin :: "JID option"
  features :: "string \<rightharpoonup> 'dat option"  \<comment> \<open>namespace to the datum of \<open>Parse\<close>, possibly nil\<close>
  negotiated :: "string set"
  dec :: Decoder  \<comment> \<open>\<open>in.d\<close>\<close>
  enc :: Encoder  \<comment> \<open>\<open>out.e\<close>\<close>

definition Conn_Read ::
  "nat \<Rightarrow> 'dat Conn \<Rightarrow> nat \<Rightarrow> (string \<times> error option) \<times> 'dat Conn" where
  \<comment> \<open>\<open>(*Conn).Read(b)\<close> with \<open>len(b) = n\<close>. The error of a closed input stream is made
      by \<open>errors.New\<close> in the call itself, so every call returns a value of its own:
      \<open>addr\<close> is the address at which this call allocates it.\<close>
  "Conn_Read addr c n =
     (if state c AND InputStreamClosed = InputStreamClosed
      then (([], Some (ErrorsNew addr ''XML input stream is closed'')), c)
      else (case RWC_Read (rwc c) n of (res, rw) \<Rightarrow> (res, c\<lparr>rwc := rw\<rparr>)))"

definition Conn_Write :: "'dat Conn \<Rightarrow> string \<Rightarrow> (nat \<times> error option) \<times> 'dat Conn" where
  "Conn_Write c b =
     (if state c AND OutputStreamClosed = OutputStreamClosed
      then ((0, Some ErrOutputStreamClosed), c)
      else (case RWC_Write (rwc c) b of (res, rw) \<Rightarrow> (res, c\<lparr>rwc := rw\<rparr>)))"

definition Raw :: "'dat Conn \<Rightarrow> RWC" where
  "Raw c = rwc c"


definition LocalAddr :: "'dat Conn \<Rightarrow> JID option" where
  "LocalAddr c =
     (if state c AND Received = Received then Location (config c)
      else if origin c \<noteq> None then origin c
      else Origin (config c))"

definition RemoteAddr :: "'dat Conn \<Rightarrow> JID option" where
  "RemoteAddr c =
     (if state c AND Received = Received then Origin (config c) else Location (config c))"

definition extends :: "'dat Conn \<Rightarrow> 'dat Conn \<Rightarrow> bool" where
  \<comment> \<open>the transport of \<open>c'\<close> holds the bytes written on \<open>c\<close> and possibly more after them\<close>
  "extends c c' = (\<exists>tl. wbuf (rwc c') = wbuf (rwc c) @ tl)"

section \<open>Stream features and their negotiation\<close>

text \<open>
  \<open>interface{}\<close> data handed from \<open>Parse\<close> to \<open>Negotiate\<close> has the type parameter
  \<open>'dat\<close>, with \<open>None\<close> for nil. The configured features are not a field of the
  connection record here (a feature's \<open>Negotiate\<close> takes the connection); the
  functions below take them as the list \<open>fs\<close>, in the order in which a \<open>range\<close> loop
  over \<open>config.Features\<close> visits them. A \<open>range\<close> loop over the cache visits its
  entries in an order that the language leaves open: \<open>visit\<close> gives that order.
\<close>

record 'dat StreamFeature =
  Name :: xml_Name
  Necessary :: SessionState
  Prohibited :: SessionState
  List :: "Context \<Rightarrow> Encoder \<Rightarrow> Token \<Rightarrow> (bool \<times> error option) \<times> Encoder"
  Parse :: "Context \<Rightarrow> Decoder \<Rightarrow> Token \<Rightarrow> (bool \<times> 'dat option \<times> error option) \<times> Decoder"
  Negotiate :: "Context \<Rightarrow> 'dat Conn \<Rightarrow> 'dat option \<Rightarrow>
                  ((SessionState \<times> RWC option \<times> error option) \<times> 'dat Conn) outcome"

record 'dat sfData =
  req :: bool
  data :: "'dat option"
  feature :: "'dat StreamFeature"

record 'dat streamFeaturesList =
  total :: nat
  list_req :: bool  \<comment> \<open>the field \<open>req\<close> of \<open>streamFeaturesList\<close>\<close>
  cache :: "string \<rightharpoonup> 'dat sfData"

definition advertisable :: "SessionState \<Rightarrow> 'dat StreamFeature \<Rightarrow> bool" where
  \<comment> \<open>the test \<open>(s.state&feature.Necessary) == feature.Necessary &&
      (s.state&feature.Prohibited) == 0\<close>\<close>
  "advertisable st f = (st AND Necessary f = Necessary f \<and> st AND Prohibited f = 0)"

definition emptyList :: "'dat streamFeaturesList" where
  "emptyList = \<lparr>total = 0, list_req = False, cache = Map.empty\<rparr>"

fun writeFeatureLoop ::
  "Context \<Rightarrow> SessionState \<Rightarrow> 'dat StreamFeature list \<Rightarrow> 'dat streamFeaturesList \<Rightarrow> Encoder
   \<Rightarrow> 'dat streamFeaturesList \<times> error option \<times> Encoder" where
  \<comment> \<open>the \<open>range\<close> loop of \<open>writeStreamFeatures\<close>\<close>
  "writeFeatureLoop ctx st [] list e = (list, None, e)"
| "writeFeatureLoop ctx st (f # fs) list e =
     (if advertisable st f then
        (case List f ctx e (StartElement (Name f) []) of
           ((r, Some err), e') \<Rightarrow> (list, Some err, e')
         | ((r, None), e') \<Rightarrow>
             writeFeatureLoop ctx st fs
               (list\<lparr>cache := (cache list)(Space (Name f) \<mapsto> \<lparr>req = r, data = None, feature = f\<rparr>),
                     list_req := (if r then True else list_req list),
                     total := total list + 1\<rparr>) e')
      else writeFeatureLoop ctx st fs list e)"

fun listEach ::
  "Context \<Rightarrow> 'dat StreamFeature list \<Rightarrow> Encoder \<Rightarrow> bool list \<times> error option \<times> Encoder" where
  \<comment> \<open>what the spec asks of the responder, "call each feature's list; note which are
      required": the \<open>List\<close> operation of every feature of the list is called in turn on
      the encoder, with the start element of the feature, up to the first error; the
      result has the required-flags returned, the error and the encoder afterwards\<close>
  "listEach ctx [] e = ([], None, e)"
| "listEach ctx (f # fs) e =
     (case List f ctx e (StartElement (Name f) []) of
        ((r, Some err), e') \<Rightarrow> ([], Some err, e')
      | ((r, None), e') \<Rightarrow>
          (case listEach ctx fs e' of (rs, err, e'') \<Rightarrow> (r # rs, err, e'')))"

definition streamFeaturesStart :: Token where
  "streamFeaturesStart = StartElement \<lparr>Space = [], Local = ''stream:features''\<rparr> []"

definition writeStreamFeatures ::
  "Context \<Rightarrow> 'dat StreamFeature list \<Rightarrow> 'dat Conn
   \<Rightarrow> 'dat streamFeaturesList option \<times> error option \<times> 'dat Conn" where
  \<comment> \<open>the list is nil (\<open>None\<close>) only when the opening token could not be encoded\<close>
  "writeStreamFeatures ctx fs s =
     (case EncodeToken (enc s) streamFeaturesStart of
        (Some err, e0) \<Rightarrow> (None, Some err, s\<lparr>enc := e0\<rparr>)
      | (None, e0) \<Rightarrow>
          (case writeFeatureLoop ctx (state s) fs emptyList e0 of
             (list, Some err, e1) \<Rightarrow> (Some list, Some err, s\<lparr>enc := e1\<rparr>)
           | (list, None, e1) \<Rightarrow>
               (case EncodeToken e1 (End streamFeaturesStart) of
                  (Some err, e2) \<Rightarrow> (Some list, Some err, s\<lparr>enc := e2\<rparr>)
                | (None, e2) \<Rightarrow>
                    (case Flush e2 of (err, e3) \<Rightarrow> (Some list, err, s\<lparr>enc := e3\<rparr>)))))"

definition ns_Stream :: string where
  "ns_Stream = ''http://etherx.jabber.org/streams''"

definition ns_SASL :: string where
  "ns_SASL = ''urn:ietf:params:xml:ns:xmpp-sasl''"

definition ns_StartTLS :: string where
  "ns_StartTLS = ''urn:ietf:params:xml:ns:xmpp-tls''"

fun parseFeatures ::
  "nat \<Rightarrow> Context \<Rightarrow> 'dat StreamFeature list \<Rightarrow> 'dat streamFeaturesList \<Rightarrow> 'dat Conn
   \<Rightarrow> ('dat streamFeaturesList option \<times> error option \<times> 'dat Conn) option" where
  \<comment> \<open>the loop \<open>parsefeatures\<close> of \<open>readStreamFeatures\<close>, with fuel: \<open>None\<close> when the
      fuel runs out\<close>
  "parseFeatures 0 ctx fs sf s = None"
| "parseFeatures (Suc k) ctx fs sf s =
     (case Decoder_Token (dec s) of
        (Inl err, d) \<Rightarrow> Some (None, Some err, s\<lparr>dec := d\<rparr>)
      | (Inr (StartElement nm attrs), d) \<Rightarrow>
          (let sf1 = sf\<lparr>total := total sf + 1\<rparr>;
               s1 = s\<lparr>dec := d, features := (features s)(Space nm \<mapsto> None)\<rparr>
           in case find (\<lambda>f. Name f = nm) fs of
                Some f \<Rightarrow>
                  if advertisable (state s1) f then
                    (case Parse f ctx (dec s1) (StartElement nm attrs) of
                       ((r, dat, Some err), d') \<Rightarrow> Some (None, Some err, s1\<lparr>dec := d'\<rparr>)
                     | ((r, dat, None), d') \<Rightarrow>
                         parseFeatures k ctx fs
                           (sf1\<lparr>cache := (cache sf1)(Space nm \<mapsto> \<lparr>req = r, data = dat, feature = f\<rparr>),
                                list_req := (if r then True else list_req sf1)\<rparr>)
                           (s1\<lparr>dec := d', features := (features s1)(Space nm \<mapsto> dat)\<rparr>))
                  else
                    (case Decoder_Skip (dec s1) of
                       (Some err, d') \<Rightarrow> Some (None, Some err, s1\<lparr>dec := d'\<rparr>)
                     | (None, d') \<Rightarrow> parseFeatures k ctx fs sf1 (s1\<lparr>dec := d'\<rparr>))
              | None \<Rightarrow>
                  (case Decoder_Skip (dec s1) of
                     (Some err, d') \<Rightarrow> Some (None, Some err, s1\<lparr>dec := d'\<rparr>)
                   | (None, d') \<Rightarrow> parseFeatures k ctx fs sf1 (s1\<lparr>dec := d'\<rparr>)))
      | (Inr (EndElement nm), d) \<Rightarrow>
          (if Local nm = ''features'' \<and> Space nm = ns_Stream
           then Some (Some sf, None, s\<lparr>dec := d\<rparr>)
           else Some (None, Some InvalidXML, s\<lparr>dec := d\<rparr>))
      | (Inr t, d) \<Rightarrow> Some (None, Some RestrictedXML, s\<lparr>dec := d\<rparr>))"

definition readStreamFeatures ::
  "nat \<Rightarrow> Context \<Rightarrow> 'dat StreamFeature list \<Rightarrow> 'dat Conn \<Rightarrow> xml_Name
   \<Rightarrow> ('dat streamFeaturesList option \<times> error option \<times> 'dat Conn) option" where
  "readStreamFeatures k ctx fs s nm =
     (if Local nm \<noteq> ''features'' then Some (None, Some InvalidXML, s)
      else if Space nm \<noteq> ns_Stream then Some (None, Some BadNamespacePrefix, s)
      else parseFeatures k ctx fs emptyList s)"

fun selectFeature :: "'dat sfData list \<Rightarrow> string set \<Rightarrow> 'dat sfData option \<Rightarrow> 'dat sfData option" where
  \<comment> \<open>the client's loop over the cached features; \<open>None\<close> is the zero \<open>sfData\<close>\<close>
  "selectFeature [] neg sel = sel"
| "selectFeature (v # vs) neg sel =
     (if Space (Name (feature v)) \<in> neg then selectFeature vs neg sel
      else if \<not> req v then Some v
      else selectFeature vs neg (Some v))"

definition runNegotiate ::
  "Context \<Rightarrow> 'dat Conn \<Rightarrow> 'dat sfData
   \<Rightarrow> ((SessionState \<times> RWC option \<times> error option) \<times> 'dat Conn) outcome" where
  \<comment> \<open>the call of the selected feature's \<open>Negotiate\<close> and the two updates after it\<close>
  "runNegotiate ctx c d =
     (case Negotiate (feature d) ctx c (data d) of
        Panic msg \<Rightarrow> Panic msg
      | Return ((msk, rw, err), c1) \<Rightarrow>
          (let c2 = (if err = None then c1\<lparr>state := state c1 OR msk\<rparr> else c1);
               c3 = c2\<lparr>negotiated := insert (Space (Name (feature d))) (negotiated c2)\<rparr>
           in Return ((msk, rw, err), c3)))"

type_synonym 'dat negotiated_result = "((bool \<times> RWC option \<times> error option) \<times> 'dat Conn) outcome"

fun negotiateLoop ::
  "nat \<Rightarrow> Context \<Rightarrow> ((string \<rightharpoonup> 'dat sfData) \<Rightarrow> 'dat sfData list) \<Rightarrow> bool
   \<Rightarrow> 'dat streamFeaturesList \<Rightarrow> 'dat Conn \<Rightarrow> 'dat negotiated_result option" where
  \<comment> \<open>the \<open>for\<close> loop of \<open>negotiateFeatures\<close> and the return after it, with fuel; at the
      head of the loop the variable \<open>rwc\<close> is nil\<close>
  "negotiateLoop 0 ctx visit server list c = None"
| "negotiateLoop (Suc k) ctx visit server list c =
     (let finish = (\<lambda>d c0.
            case runNegotiate ctx c0 d of
              Panic msg \<Rightarrow> Some (Panic msg)
            | Return ((msk, rw, err), c1) \<Rightarrow>
                if rw \<noteq> None \<or> req d
                then Some (Return ((\<not> list_req list \<or> state c1 AND Ready = Ready, rw, err), c1))
                else negotiateLoop k ctx visit server list c1)
      in if server then
           (case Decoder_Token (dec c) of
              (Inl err, d') \<Rightarrow> Some (Return ((False, None, Some err), c\<lparr>dec := d'\<rparr>))
            | (Inr (StartElement nm attrs), d') \<Rightarrow>
                (case cache list (Space nm) of
                   None \<Rightarrow> Some (Return ((False, None, Some PolicyViolation), c\<lparr>dec := d'\<rparr>))
                 | Some d \<Rightarrow>
                     if Space nm \<in> negotiated c
                     then Some (Return ((False, None, Some PolicyViolation), c\<lparr>dec := d'\<rparr>))
                     else finish d (c\<lparr>dec := d'\<rparr>))
            | (Inr t, d') \<Rightarrow> Some (Return ((False, None, Some BadFormat), c\<lparr>dec := d'\<rparr>)))
         else
           (case selectFeature (visit (cache list)) (negotiated c) None of
              None \<Rightarrow> Some (Return ((True, None, None), c))
            | Some d \<Rightarrow>
                if Local (Name (feature d)) = [] then Some (Return ((True, None, None), c))
                else finish d c))"

definition negotiateFeatures ::
  "nat \<Rightarrow> Context \<Rightarrow> ((string \<rightharpoonup> 'dat sfData) \<Rightarrow> 'dat sfData list) \<Rightarrow> 'dat StreamFeature list
   \<Rightarrow> 'dat Conn \<Rightarrow> 'dat negotiated_result option" where
  "negotiateFeatures k ctx visit fs c =
     (if state c AND Received = Received then
        (case writeStreamFeatures ctx fs c of
           (l, Some err, c1) \<Rightarrow> Some (Return ((False, None, Some err), c1))
         | (None, None, c1) \<Rightarrow> Some (Panic ''nil pointer dereference'')
         | (Some list, None, c1) \<Rightarrow> negotiateLoop k ctx visit True list c1)
      else
        (case Decoder_Token (dec c) of
           (Inl err, d) \<Rightarrow> Some (Return ((False, None, Some err), c\<lparr>dec := d\<rparr>))
         | (Inr (StartElement nm attrs), d) \<Rightarrow>
             (case readStreamFeatures k ctx fs (c\<lparr>dec := d\<rparr>) nm of
                None \<Rightarrow> None
              | Some (l, Some err, c1) \<Rightarrow> Some (Return ((False, None, Some err), c1))
              | Some (None, None, c1) \<Rightarrow> Some (Panic ''nil pointer dereference'')
              | Some (Some list, None, c1) \<Rightarrow>
                  if total list = 0 \<or> dom (cache list) = {}
                  then Some (Return ((True, None, None), c1))
                  else negotiateLoop k ctx visit False list c1)
         | (Inr t, d) \<Rightarrow> Some (Return ((False, None, Some BadFormat), c\<lparr>dec := d\<rparr>))))"

section \<open>The STARTTLS feature\<close>

definition apos :: string where
  \<comment> \<open>the apostrophe, which delimits the attribute values in the elements written\<close>
  "apos = [CHR 0x27]"

definition proceedElement :: string where
  \<comment> \<open>\<open><proceed xmlns='urn:ietf:params:xml:ns:xmpp-tls'/>\<close>\<close>
  "proceedElement = ''<proceed xmlns='' @ apos @ ''urn:ietf:params:xml:ns:xmpp-tls'' @ apos @ ''/>''"

definition starttlsElement :: string where
  \<comment> \<open>\<open><starttls xmlns='urn:ietf:params:xml:ns:xmpp-tls'/>\<close>\<close>
  "starttlsElement = ''<starttls xmlns='' @ apos @ ''urn:ietf:params:xml:ns:xmpp-tls'' @ apos @ ''/>''"

definition Fprint :: "'dat Conn \<Rightarrow> string \<Rightarrow> (nat \<times> error option) \<times> 'dat Conn" where
  \<comment> \<open>\<open>fmt.Fprint(conn, b)\<close> and \<open>fmt.Fprintf(conn, ...)\<close> with the formatted bytes
      \<open>b\<close>: one call of \<open>conn.Write\<close>\<close>
  "Fprint conn b = Conn_Write conn b"

definition StartTLS_Handler ::
  "Context \<Rightarrow> 'dat Conn \<Rightarrow> (SessionState \<times> error option) \<times> 'dat Conn" where
  \<comment> \<open>the results of the two \<open>fmt.Fprint\<close> calls are dropped, as in the source\<close>
  "StartTLS_Handler ctx conn =
     (if \<not> netConn (rwc conn) then ((0, Some ErrTLSUpgradeFailed), conn)
      else if state conn AND Received = Received then
        (let c1 = snd (Fprint conn proceedElement);
             c2 = c1\<lparr>rwc := tls_Server (rwc c1)\<rparr>
         in ((Secure OR StreamRestartRequired, None), c2))
      else
        (let c1 = snd (Fprint conn starttlsElement)
         in case Decoder_Token (dec c1) of
              (Inl err, d) \<Rightarrow> ((0, Some err), c1\<lparr>dec := d\<rparr>)
            | (Inr (StartElement nm attrs), d) \<Rightarrow>
                if Space nm \<noteq> ns_StartTLS then ((0, Some UnsupportedStanzaType), c1\<lparr>dec := d\<rparr>)
                else if Local nm = ''proceed'' then
                  (case Decoder_Skip d of
                     (Some err, d') \<Rightarrow> ((EndStream, Some InvalidXML), c1\<lparr>dec := d'\<rparr>)
                   | (None, d') \<Rightarrow>
                       ((Secure OR StreamRestartRequired, None),
                        c1\<lparr>dec := d', rwc := tls_Client (rwc c1)\<rparr>))
                else if Local nm = ''failure'' then
                  (case Decoder_Skip d of
                     (Some err, d') \<Rightarrow> ((EndStream, Some InvalidXML), c1\<lparr>dec := d'\<rparr>)
                   | (None, d') \<Rightarrow> ((EndStream, None), c1\<lparr>dec := d'\<rparr>))
                else ((0, Some UnsupportedStanzaType), c1\<lparr>dec := d\<rparr>)
            | (Inr t, d) \<Rightarrow> ((0, Some RestrictedXML), c1\<lparr>dec := d\<rparr>)))"

record 'dat HandlerFeature =
  FeatureName :: xml_Name  \<comment> \<open>the field \<open>Name\<close>\<close>
  Handler :: "Context \<Rightarrow> 'dat Conn \<Rightarrow> (SessionState \<times> error option) \<times> 'dat Conn"
  Required :: bool

definition StartTLS :: "'dat HandlerFeature" where
  "StartTLS =
     \<lparr>FeatureName = \<lparr>Space = ns_StartTLS, Local = ''starttls''\<rparr>,
      Handler = StartTLS_Handler,
      Required = True\<rparr>"

section \<open>The SASL feature\<close>

text \<open>
  Package \<open>sasl\<close> is a library. A mechanism is modelled together with the state machine
  that \<open>sasl.NewClient\<close> builds from it: \<open>start\<close> gives the negotiator for the
  options, \<open>step\<close> is its method \<open>Step\<close>, from a state of type \<open>'cl\<close> and a challenge
  (nil is the empty string) to \<open>more\<close>, the response and the error.
\<close>

record saslOptions =
  authz :: string            \<comment> \<open>\<open>sasl.Authz\<close>\<close>
  username :: string         \<comment> \<open>\<open>sasl.Credentials\<close>\<close>
  password :: string
  remote :: "string list"    \<comment> \<open>\<open>sasl.RemoteMechanisms\<close>\<close>
  connState :: bool          \<comment> \<open>\<open>sasl.ConnState\<close> was added: the transport is a \<open>*tls.Conn\<close>\<close>

record 'cl Mechanism =
  mechName :: string  \<comment> \<open>the field \<open>Name\<close>\<close>
  start :: "saslOptions \<Rightarrow> 'cl"
  step :: "'cl \<Rightarrow> string \<Rightarrow> (bool \<times> string \<times> error option) \<times> 'cl"

fun charDataOf :: "nat \<Rightarrow> Token list \<Rightarrow> (string \<times> Token list) option" where
  \<comment> \<open>\<open>DecodeElement\<close> into a struct with one \<open>",chardata"\<close> field: the character data
      directly inside the element and the tokens left after its end element; nested
      elements are skipped; \<open>None\<close> when the input ends first\<close>
  "charDataOf n [] = None"
| "charDataOf n (StartElement nm attrs # ts) = charDataOf (Suc n) ts"
| "charDataOf n (EndElement nm # ts) =
     (case n of 0 \<Rightarrow> Some ([], ts) | Suc m \<Rightarrow> charDataOf m ts)"
| "charDataOf n (CharData x # ts) =
     (if n = 0 then map_option (\<lambda>(y, r). (x @ y, r)) (charDataOf n ts) else charDataOf n ts)"
| "charDataOf n (t # ts) = charDataOf n ts"

definition DecodeElement_chardata :: "Decoder \<Rightarrow> (string \<times> error option) \<times> Decoder" where
  "DecodeElement_chardata d =
     (case charDataOf 0 (pending d) of
        None \<Rightarrow> (([], Some (failure d)), d\<lparr>pending := []\<rparr>)
      | Some (x, ts) \<Rightarrow> ((x, None), d\<lparr>pending := ts\<rparr>))"

fun firstChild :: "Token list \<Rightarrow> string" where
  "firstChild [] = []"
| "firstChild (StartElement nm attrs # ts) = Local nm"
| "firstChild (EndElement nm # ts) = []"
| "firstChild (t # ts) = firstChild ts"

definition DecodeElement_failure :: "Decoder \<Rightarrow> (error \<times> error option) \<times> Decoder" where
  \<comment> \<open>Modelled from the spec: package \<open>internal/saslerr\<close> is not among the sources. The
      spec says that a structured \<open><failure/>\<close> surfaces as a typed error: the element is
      consumed and the error carries the condition, the name of its first child.\<close>
  "DecodeElement_failure d =
     (case skipTokens 0 (pending d) of
        None \<Rightarrow> ((SASLFailure [], Some (failure d)), d\<lparr>pending := []\<rparr>)
      | Some ts \<Rightarrow> ((SASLFailure (firstChild (pending d)), None), d\<lparr>pending := ts\<rparr>))"

definition decodeSASLChallenge ::
  "Decoder \<Rightarrow> xml_Name \<Rightarrow> bool \<Rightarrow> (string \<times> bool \<times> error option) \<times> Decoder" where
  "decodeSASLChallenge d nm allowChallenge =
     (if nm = \<lparr>Space = ns_SASL, Local = ''challenge''\<rparr> \<or> nm = \<lparr>Space = ns_SASL, Local = ''success''\<rparr>
      then
        if \<not> allowChallenge \<and> Local nm = ''challenge''
        then (([], False, Some UnsupportedStanzaType), d)
        else (case DecodeElement_chardata d of
                ((x, Some err), d') \<Rightarrow> (([], False, Some err), d')
              | ((x, None), d') \<Rightarrow> ((x, Local nm = ''success'', None), d'))
      else if nm = \<lparr>Space = ns_SASL, Local = ''failure''\<rparr> then
        (case DecodeElement_failure d of
           ((fail, Some err), d') \<Rightarrow> (([], False, Some err), d')
         | ((fail, None), d') \<Rightarrow> (([], False, Some fail), d'))
      else (([], False, Some UnsupportedStanzaType), d))"

definition authElement :: "string \<Rightarrow> string \<Rightarrow> string" where
  \<comment> \<open>the format \<open><auth xmlns='urn:ietf:params:xml:ns:xmpp-sasl' mechanism='%s'>%s</auth>\<close>\<close>
  "authElement name resp =
     ''<auth xmlns='' @ apos @ ''urn:ietf:params:xml:ns:xmpp-sasl'' @ apos @ '' mechanism=''
       @ apos @ name @ apos @ ''>'' @ resp @ ''</auth>''"

definition responseElement :: "string \<Rightarrow> string" where
  \<comment> \<open>the format \<open><response xmlns='urn:ietf:params:xml:ns:xmpp-sasl'>%s</response>\<close>\<close>
  "responseElement resp =
     ''<response xmlns='' @ apos @ ''urn:ietf:params:xml:ns:xmpp-sasl'' @ apos @ ''>'' @ resp
       @ ''</response>''"

type_synonym 'dat negotiate_result = "(SessionState \<times> RWC option \<times> error option) \<times> 'dat Conn"

lemma skipTokens_length: "skipTokens n ts = Some r \<Longrightarrow> length r < length ts"
  by (induction n ts arbitrary: r rule: skipTokens.induct)
     (fastforce split: nat.splits)+

lemma charDataOf_length: "charDataOf n ts = Some (x, r) \<Longrightarrow> length r < length ts"
  by (induction n ts arbitrary: x r rule: charDataOf.induct)
     (fastforce split: nat.splits if_splits)+

lemma decodeSASLChallenge_length:
  "length (pending (snd (decodeSASLChallenge d nm allow))) \<le> length (pending d)"
  by (auto simp: decodeSASLChallenge_def DecodeElement_chardata_def DecodeElement_failure_def
      split: option.splits prod.splits dest: skipTokens_length charDataOf_length)

lemma Decoder_Token_length:
  "Decoder_Token d = (Inr t, d') \<Longrightarrow> length (pending d') < length (pending d)"
  by (auto simp: Decoder_Token_def split: list.splits)

lemma Conn_Write_dec: "dec (snd (Conn_Write c b)) = dec c"
  by (simp add: Conn_Write_def split: prod.splits)

lemma Fprint_dec: "Fprint c b = (z, c2) \<Longrightarrow> dec c2 = dec c"
  by (auto simp: Fprint_def Conn_Write_def split: if_splits prod.splits)

lemma saslLoop_measure:
  assumes "Decoder_Token (dec conn) = (Inr t, d)"
    and "decodeSASLChallenge d nm allow = (v, d')"
    and "Fprint (conn\<lparr>dec := d'\<rparr>) b = (z, c2)"
  shows "length (pending (dec c2)) < length (pending (dec conn))"
proof -
  have "length (pending d) < length (pending (dec conn))"
    using assms(1) by (rule Decoder_Token_length)
  moreover have "length (pending d') \<le> length (pending d)"
    using decodeSASLChallenge_length [of d nm allow] assms(2) by simp
  moreover have "dec c2 = d'"
    using Fprint_dec [OF assms(3)] by simp
  ultimately show ?thesis by simp
qed

function saslLoop ::
  "'cl Mechanism \<Rightarrow> Context \<Rightarrow> 'cl \<Rightarrow> 'dat Conn \<Rightarrow> 'dat negotiate_result" where
  \<comment> \<open>the loop \<open>for more { ... }\<close> of the SASL \<open>Negotiate\<close>, entered with \<open>more\<close> true, and
      the return after it\<close>
  "saslLoop sel ctx cl conn =
     (case ctx of
        Some cerr \<Rightarrow> ((0, None, Some cerr), conn)
      | None \<Rightarrow>
          (case Decoder_Token (dec conn) of
             (Inl err, d) \<Rightarrow> ((0, None, Some err), conn\<lparr>dec := d\<rparr>)
           | (Inr (StartElement nm attrs), d) \<Rightarrow>
               (case decodeSASLChallenge d nm True of
                  ((challenge, success, Some err), d') \<Rightarrow> ((0, None, Some err), conn\<lparr>dec := d'\<rparr>)
                | ((challenge, success, None), d') \<Rightarrow>
                    (case step sel cl challenge of
                       ((more', resp, Some err), cl') \<Rightarrow> ((0, None, Some err), conn\<lparr>dec := d'\<rparr>)
                     | ((more', resp, None), cl') \<Rightarrow>
                         if \<not> more' \<and> success
                         then ((Authn, Some (Raw (conn\<lparr>dec := d'\<rparr>)), None), conn\<lparr>dec := d'\<rparr>)
                         else
                           (case Fprint (conn\<lparr>dec := d'\<rparr>) (responseElement resp) of
                              ((n, Some err), c2) \<Rightarrow> ((0, None, Some err), c2)
                            | ((n, None), c2) \<Rightarrow>
                                if more' then saslLoop sel ctx cl' c2
                                else ((Authn, Some (Raw c2), None), c2))))
           | (Inr t, d) \<Rightarrow> ((0, None, Some BadFormat), conn\<lparr>dec := d\<rparr>)))"
  by pat_completeness auto
termination
  apply (relation "measure (\<lambda>(sel, ctx, cl, conn). length (pending (dec conn)))")
   apply simp
  apply (simp only: in_measure prod.case)
  apply (rule saslLoop_measure)
    apply (rule sym, simp)
   apply (rule sym, assumption)
  apply (rule sym, assumption)
  done

declare saslLoop.simps [simp del]

definition selectMechanism :: "'cl Mechanism list \<Rightarrow> string list \<Rightarrow> 'cl Mechanism option" where
  \<comment> \<open>the loop \<open>selectmechanism\<close>: the first mechanism, in the client's order, whose name
      the peer offers; \<open>None\<close> is the zero \<open>Mechanism\<close>\<close>
  "selectMechanism mechanisms names = find (\<lambda>m. mechName m \<in> set names) mechanisms"

definition SASL_Negotiate ::
  "'cl Mechanism list \<Rightarrow> Context \<Rightarrow> (string list) Conn \<Rightarrow> (string list) option
   \<Rightarrow> ((string list) negotiate_result) outcome" where
  \<comment> \<open>the datum is the list of mechanism names of \<open>Parse\<close>; on a nil datum the type
      assertion \<open>data.([]string)\<close> panics, and so does \<open>Localpart\<close> on a nil address\<close>
  "SASL_Negotiate mechanisms ctx conn dat =
     (if state conn AND Received = Received then Panic ''SASL server not yet implemented''
      else case dat of
        None \<Rightarrow>
          (if mechanisms = [] then Return ((0, None, Some ErrNoMatchingMechanisms), conn)
           else Panic ''interface conversion: interface {} is nil, not []string'')
      | Some names \<Rightarrow>
          (case selectMechanism mechanisms names of
             None \<Rightarrow> Return ((0, None, Some ErrNoMatchingMechanisms), conn)
           | Some selected \<Rightarrow>
               if mechName selected = [] then Return ((0, None, Some ErrNoMatchingMechanisms), conn)
               else
                 (case LocalAddr conn of
                    None \<Rightarrow> Panic ''invalid memory address or nil pointer dereference''
                  | Some addr \<Rightarrow>
                      (let opts = \<lparr>authz = Identity (config conn),
                                   username = localpart addr,
                                   password = Password (config conn),
                                   remote = names,
                                   connState = (layers (rwc conn) \<noteq> [])\<rparr>;
                           client = start selected opts
                       in case step selected client [] of
                            ((more', resp, Some err), cl1) \<Rightarrow> Return ((0, None, Some err), conn)
                          | ((more', resp, None), cl1) \<Rightarrow>
                              (let resp1 = (if length resp = 0 then [CHR ''=''] else resp)
                               in case Fprint conn (authElement (mechName selected) resp1) of
                                    ((n, Some err), c1) \<Rightarrow> Return ((0, None, Some err), c1)
                                  | ((n, None), c1) \<Rightarrow>
                                      if \<not> more' then
                                        (case Decoder_Token (dec c1) of
                                           (Inl err, d) \<Rightarrow>
                                             Return ((0, None, Some err), c1\<lparr>dec := d\<rparr>)
                                         | (Inr (StartElement nm attrs), d) \<Rightarrow>
                                             (case decodeSASLChallenge d nm False of
                                                ((x, success, Some err), d') \<Rightarrow>
                                                  Return ((0, None, Some err), c1\<lparr>dec := d'\<rparr>)
                                              | ((x, success, None), d') \<Rightarrow>
                                                  Return ((Authn, Some (Raw (c1\<lparr>dec := d'\<rparr>)), None),
                                                          c1\<lparr>dec := d'\<rparr>))
                                         | (Inr t, d) \<Rightarrow>
                                             Return ((0, None, Some BadFormat), c1\<lparr>dec := d\<rparr>))
                                      else Return (saslLoop selected ctx cl1 c1))))))"

definition encodeAll :: "Encoder \<Rightarrow> Token list \<Rightarrow> error option \<times> Encoder" where
  \<comment> \<open>a sequence of \<open>EncodeToken\<close> calls that stops at the first error\<close>
  "encodeAll e ts =
     fold (\<lambda>t (err, e'). if err = None then EncodeToken e' t else (err, e')) ts (None, e)"

definition startMechanism :: Token where
  "startMechanism = StartElement \<lparr>Space = [], Local = ''mechanism''\<rparr> []"

fun listMechanisms :: "Context \<Rightarrow> 'cl Mechanism list \<Rightarrow> Encoder \<Rightarrow> error option \<times> Encoder" where
  \<comment> \<open>the loop over the mechanisms in \<open>List\<close>\<close>
  "listMechanisms ctx [] e = (None, e)"
| "listMechanisms ctx (m # ms) e =
     (case ctx of
        Some cerr \<Rightarrow> (Some cerr, e)
      | None \<Rightarrow>
          (case encodeAll e [startMechanism, CharData (mechName m), End startMechanism] of
             (Some err, e') \<Rightarrow> (Some err, e')
           | (None, e') \<Rightarrow> listMechanisms ctx ms e'))"

definition SASL_List ::
  "'cl Mechanism list \<Rightarrow> Context \<Rightarrow> Encoder \<Rightarrow> Token \<Rightarrow> (bool \<times> error option) \<times> Encoder" where
  "SASL_List mechanisms ctx e startTok =
     (case EncodeToken e startTok of
        (Some err, e0) \<Rightarrow> ((True, Some err), e0)
      | (None, e0) \<Rightarrow>
          (case listMechanisms ctx mechanisms e0 of
             (Some err, e1) \<Rightarrow> ((True, Some err), e1)
           | (None, e1) \<Rightarrow>
               (case EncodeToken e1 (End startTok) of
                  (Some err, e2) \<Rightarrow> ((True, Some err), e2)
                | (None, e2) \<Rightarrow> (case Flush e2 of (err, e3) \<Rightarrow> ((True, err), e3)))))"

function mechanismsOf :: "Token list \<Rightarrow> string list \<times> Token list option" where
  \<comment> \<open>\<open>DecodeElement\<close> into the struct of \<open>Parse\<close>: the character data of every child
      \<open>mechanism\<close> in the SASL namespace, other children skipped, and the tokens left
      after the end element; no tokens are left (\<open>None\<close>) when the input ends first\<close>
  "mechanismsOf [] = ([], None)"
| "mechanismsOf (StartElement nm attrs # ts) =
     (if nm = \<lparr>Space = ns_SASL, Local = ''mechanism''\<rparr>
      then (case charDataOf 0 ts of
              None \<Rightarrow> ([], None)
            | Some (x, ts') \<Rightarrow> (x # fst (mechanismsOf ts'), snd (mechanismsOf ts')))
      else (case skipTokens 0 ts of
              None \<Rightarrow> ([], None)
            | Some ts' \<Rightarrow> mechanismsOf ts'))"
| "mechanismsOf (EndElement nm # ts) = ([], Some ts)"
| "mechanismsOf (CharData x # ts) = mechanismsOf ts"
| "mechanismsOf (Comment x # ts) = mechanismsOf ts"
| "mechanismsOf (ProcInst x y # ts) = mechanismsOf ts"
| "mechanismsOf (Directive x # ts) = mechanismsOf ts"
  by pat_completeness auto
termination
  by (relation "measure length")
     (auto dest: charDataOf_length skipTokens_length)

definition SASL_Parse ::
  "Context \<Rightarrow> Decoder \<Rightarrow> Token \<Rightarrow> (bool \<times> (string list) option \<times> error option) \<times> Decoder" where
  \<comment> \<open>the list is a \<open>[]string\<close>, so the datum is never the nil interface; the two
      messages are the ones of \<open>DecodeElement\<close> for a start element with another local
      name and with another name space. The parameter is a \<open>*xml.StartElement\<close>: the last
      case, of another token, does not occur.\<close>
  "SASL_Parse ctx d startTok =
     (case startTok of
        StartElement nm attrs \<Rightarrow>
          if Local nm \<noteq> ''mechanisms''
          then ((True, Some [],
                 Some (UnmarshalError
                   (''expected element type <mechanisms> but have <'' @ Local nm @ ''>''))), d)
          else if Space nm \<noteq> ns_SASL
          then ((True, Some [],
                 Some (UnmarshalError
                   (''expected element <mechanisms> in name space '' @ ns_SASL @ '' but have ''
                    @ (if Space nm = [] then ''no name space'' else Space nm)))), d)
          else (case mechanismsOf (pending d) of
                  (names, None) \<Rightarrow> ((True, Some names, Some (failure d)), d\<lparr>pending := []\<rparr>)
                | (names, Some ts) \<Rightarrow> ((True, Some names, None), d\<lparr>pending := ts\<rparr>))
      | t \<Rightarrow> ((True, Some [],
                Some (UnmarshalError ''expected element type <mechanisms> but have <>'')), d))"

definition SASL :: "'cl Mechanism list \<Rightarrow> ((string list) StreamFeature) outcome" where
  "SASL mechanisms =
     (if length mechanisms = 0 then Panic ''xmpp: Must specify at least 1 SASL mechanism''
      else Return
        \<lparr>Name = \<lparr>Space = ns_SASL, Local = ''mechanisms''\<rparr>,
         Necessary = Secure,
         Prohibited = Authn,
         List = SASL_List mechanisms,
         Parse = SASL_Parse,
         Negotiate = SASL_Negotiate mechanisms\<rparr>)"

section \<open>Example values\<close>

text \<open>The values at which the properties below are evaluated.\<close>

definition exampleRWC :: "string \<Rightarrow> RWC" where
  \<comment> \<open>a network connection with the given bytes to read\<close>
  "exampleRWC input = \<lparr>netConn = True, layers = [], rbuf = input, wbuf = [], werr = None\<rparr>"

definition exampleConn :: "SessionState \<Rightarrow> Token list \<Rightarrow> (string list) Conn" where
  \<comment> \<open>a connection in the given state whose decoder yields the given tokens and then
      \<open>io.EOF\<close>, over an empty transport\<close>
  "exampleConn st toks =
     \<lparr>config = \<lparr>Location = Some \<lparr>localpart = [], domainpart = ''example.net'', resourcepart = []\<rparr>,
                Origin = Some \<lparr>localpart = ''mercutio'', domainpart = ''example.net'',
                               resourcepart = []\<rparr>,
                Identity = [], Password = ''secret''\<rparr>,
      rwc = exampleRWC [],
      state = st,
      origin = None,
      features = Map.empty,
      negotiated = {},
      dec = \<lparr>pending = toks, failure = EOF\<rparr>,
      enc = \<lparr>emitted = [], refuse = (\<lambda>ts t. None), flushErr = (\<lambda>ts. None)\<rparr>\<rparr>"

definition exampleMechanism :: "string \<Rightarrow> string \<Rightarrow> unit Mechanism" where
  \<comment> \<open>a mechanism that is done after its initial response\<close>
  "exampleMechanism name resp =
     \<lparr>mechName = name, start = (\<lambda>opts. ()), step = (\<lambda>cl challenge. ((False, resp, None), cl))\<rparr>"

definition exampleFeature ::
  "xml_Name \<Rightarrow> SessionState \<Rightarrow> SessionState \<Rightarrow> bool \<Rightarrow> SessionState \<Rightarrow> error option
   \<Rightarrow> (string list) StreamFeature" where
  \<comment> \<open>a feature that lists itself as an empty element and whose \<open>Negotiate\<close> returns the
      given mask and error without touching the connection\<close>
  "exampleFeature nm nec proh r msk nerr =
     \<lparr>Name = nm, Necessary = nec, Prohibited = proh,
      List = (\<lambda>ctx e st. case EncodeToken e st of
                (Some err, e1) \<Rightarrow> ((r, Some err), e1)
              | (None, e1) \<Rightarrow> (case EncodeToken e1 (End st) of (err, e2) \<Rightarrow> ((r, err), e2))),
      Parse = (\<lambda>ctx d st. case Decoder_Skip d of (err, d1) \<Rightarrow> ((r, None, err), d1)),
      Negotiate = (\<lambda>ctx c dat. Return ((msk, None, nerr), c))\<rparr>"

definition exampleFeatures :: "(string list) StreamFeature list" where
  \<comment> \<open>a STARTTLS-like feature, offered until the stream is secure, whose negotiation fails,
      and a SASL-like feature, offered on a secure stream until it is authenticated\<close>
  "exampleFeatures =
     [exampleFeature \<lparr>Space = ns_StartTLS, Local = ''starttls''\<rparr> 0 Secure True Secure
        (Some ErrTLSUpgradeFailed),
      exampleFeature \<lparr>Space = ns_SASL, Local = ''mechanisms''\<rparr> Secure Authn True Authn None]"

definition exampleVisit :: "(string \<rightharpoonup> 'dat sfData) \<Rightarrow> 'dat sfData list" where
  \<comment> \<open>an order in which a \<open>range\<close> loop may visit the cache: the entry of STARTTLS,
      then the entry of SASL\<close>
  "exampleVisit m = List.map_filter m [ns_StartTLS, ns_SASL]"

section \<open>Properties of package jid\<close>

subsection \<open>Auxiliary facts\<close>

lemma matchHere_slash: "matchHere s \<Longrightarrow> CHR ''/'' \<in> set s"
proof -
  assume m: "matchHere s"
  then obtain t1 where d1: "dropWhile notSep s = CHR ''@'' # t1"
    by (auto simp: matchHere_def split: list.splits)
  with m obtain t2 where d2: "dropWhile notSep t1 = CHR ''/'' # t2"
    by (auto simp: matchHere_def split: list.splits)
  have "CHR ''/'' \<in> set (dropWhile notSep t1)" by (simp add: d2)
  then have "CHR ''/'' \<in> set t1" by (rule set_dropWhileD)
  then have "CHR ''/'' \<in> set (dropWhile notSep s)" by (simp add: d1)
  then show ?thesis by (rule set_dropWhileD)
qed

lemma MatchString_slash: "MatchString_JIDMatch s \<Longrightarrow> CHR ''/'' \<in> set s"
  by (induction s) (auto dest: matchHere_slash)

lemma matchHere_parts:
  assumes "l \<noteq> []" "d \<noteq> []" "r \<noteq> []"
    and "\<forall>c \<in> set l. notSep c" "\<forall>c \<in> set d. notSep c" "notSep (hd r)"
  shows "matchHere (l @ CHR ''@'' # d @ CHR ''/'' # r)"
proof -
  have n1: "\<not> notSep CHR ''@''" and n2: "\<not> notSep CHR ''/''" by (simp_all add: notSep_def)
  have t1: "takeWhile notSep (l @ CHR ''@'' # d @ CHR ''/'' # r) = l"
    using assms(4) n1 by simp
  have d1: "dropWhile notSep (l @ CHR ''@'' # d @ CHR ''/'' # r) = CHR ''@'' # d @ CHR ''/'' # r"
    using assms(4) n1 by simp
  have t2: "takeWhile notSep (d @ CHR ''/'' # r) = d"
    using assms(5) n2 by simp
  have d2: "dropWhile notSep (d @ CHR ''/'' # r) = CHR ''/'' # r"
    using assms(5) n2 by simp
  have r: "case r of [] \<Rightarrow> False | c3 # t3 \<Rightarrow> notSep c3"
    using assms(3,6) by (cases r) simp_all
  show ?thesis
    using assms(1,2) r by (simp add: matchHere_def t1 d1 t2 d2)
qed

lemma MatchString_parts:
  assumes "l \<noteq> []" "d \<noteq> []" "r \<noteq> []"
    and "\<forall>c \<in> set l. notSep c" "\<forall>c \<in> set d. notSep c" "notSep (hd r)"
  shows "MatchString_JIDMatch (l @ CHR ''@'' # d @ CHR ''/'' # r)"
proof -
  obtain c cs where l: "l = c # cs" using assms(1) by (cases l) auto
  have "matchHere (l @ CHR ''@'' # d @ CHR ''/'' # r)"
    using assms by (rule matchHere_parts)
  then show ?thesis by (simp add: l)
qed

lemma matchHere_decompose:
  assumes "matchHere s"
  shows "\<exists>x y z q. s = x @ ''@'' @ y @ ''/'' @ z @ q \<and> x \<noteq> [] \<and> y \<noteq> [] \<and> z \<noteq> []
           \<and> (\<forall>c \<in> set x. notSep c) \<and> (\<forall>c \<in> set y. notSep c) \<and> (\<forall>c \<in> set z. notSep c)"
proof -
  from assms obtain t1 where d1: "dropWhile notSep s = CHR ''@'' # t1"
    and x0: "takeWhile notSep s \<noteq> []"
    by (auto simp: matchHere_def split: list.splits)
  with assms obtain t2 where d2: "dropWhile notSep t1 = CHR ''/'' # t2"
    and y0: "takeWhile notSep t1 \<noteq> []"
    by (auto simp: matchHere_def split: list.splits)
  with assms d1 obtain c3 t3 where t2: "t2 = c3 # t3" and c3: "notSep c3"
    by (auto simp: matchHere_def split: list.splits)
  have "s = takeWhile notSep s @ dropWhile notSep s" by simp
  also have "dropWhile notSep s = CHR ''@'' # (takeWhile notSep t1 @ dropWhile notSep t1)"
    by (simp add: d1)
  finally have "s = takeWhile notSep s @ ''@'' @ takeWhile notSep t1 @ ''/'' @ [c3] @ t3"
    by (simp add: d2 t2)
  moreover have "\<forall>c \<in> set (takeWhile notSep s). notSep c"
    and "\<forall>c \<in> set (takeWhile notSep t1). notSep c"
    by (auto dest: set_takeWhileD)
  ultimately show ?thesis using x0 y0 c3
    by (intro exI [of _ "takeWhile notSep s"] exI [of _ "takeWhile notSep t1"]
        exI [of _ "[c3]"] exI [of _ t3]) simp
qed

lemma MatchString_append: "MatchString_JIDMatch w \<Longrightarrow> MatchString_JIDMatch (p @ w)"
  by (induction p) simp_all

text \<open>
  The matcher decides the expression: \<open>MatchString_JIDMatch s\<close> holds exactly when some
  substring of \<open>s\<close> has the form \<open>x@y/z\<close> with non-empty \<open>x\<close>, \<open>y\<close>, \<open>z\<close> free of
  \<open>@\<close> and \<open>/\<close>.
\<close>

lemma MatchString_JIDMatch_iff:
  "MatchString_JIDMatch s \<longleftrightarrow>
     (\<exists>p x y z q. s = p @ x @ ''@'' @ y @ ''/'' @ z @ q \<and> x \<noteq> [] \<and> y \<noteq> [] \<and> z \<noteq> []
        \<and> (\<forall>c \<in> set x. notSep c) \<and> (\<forall>c \<in> set y. notSep c) \<and> (\<forall>c \<in> set z. notSep c))"
  (is "?L s \<longleftrightarrow> ?R s")
proof
  show "?L s \<Longrightarrow> ?R s"
  proof (induction s)
    case Nil
    then show ?case by simp
  next
    case (Cons c cs)
    show ?case
    proof (cases "matchHere (c # cs)")
      case True
      from matchHere_decompose [OF this] show ?thesis
        by (metis append_Nil)
    next
      case False
      with Cons.prems have "MatchString_JIDMatch cs" by simp
      from Cons.IH [OF this] obtain p x y z q
        where "cs = p @ x @ ''@'' @ y @ ''/'' @ z @ q" "x \<noteq> []" "y \<noteq> []" "z \<noteq> []"
          "\<forall>c \<in> set x. notSep c" "\<forall>c \<in> set y. notSep c" "\<forall>c \<in> set z. notSep c"
        by blast
      then show ?thesis
        by (intro exI [of _ "c # p"] exI [of _ x] exI [of _ y] exI [of _ z] exI [of _ q]) simp
    qed
  qed
next
  assume "?R s"
  then obtain p x y z q
    where s: "s = p @ x @ ''@'' @ y @ ''/'' @ z @ q" and n: "x \<noteq> []" "y \<noteq> []" "z \<noteq> []"
      and a: "\<forall>c \<in> set x. notSep c" "\<forall>c \<in> set y. notSep c" "\<forall>c \<in> set z. notSep c"
    by blast
  have "notSep (hd (z @ q))" using n(3) a(3) by (cases z) simp_all
  with n a have "MatchString_JIDMatch (x @ CHR ''@'' # y @ CHR ''/'' # (z @ q))"
    by (intro MatchString_parts) simp_all
  then have "MatchString_JIDMatch (p @ x @ CHR ''@'' # y @ CHR ''/'' # (z @ q))"
    by (rule MatchString_append)
  then show "?L s" by (simp add: s)
qed

lemma IndexRune_at: "c \<notin> set l \<Longrightarrow> IndexRune (l @ c # rest) c = int (length l)"
  by (induction l) (auto simp: IndexRune_def)

lemma slice_prefix: "slice (l @ rest) 0 (int (length l)) = Some l"
  by (simp add: slice_def)

lemma slice_middle:
  "slice (l @ c # d @ rest) (int (length l) + 1) (int (length l) + 1 + int (length d)) = Some d"
  by (simp add: slice_def nat_add_distrib)

lemma slice_suffix:
  "slice (l @ c # d @ e # r) (int (length l) + 1 + int (length d) + 1) (int (length (l @ c # d @ e # r))) = Some r"
  by (simp add: slice_def nat_add_distrib)

lemma NormalizeJIDPart_Inr:
  assumes "NormalizeJIDPart NF p = Inr q"
  shows "q = NF p" and "NF p \<noteq> []" and "length (NF p) \<le> 1023" and "ValidString p"
    and "CHR ''@'' \<notin> set p" and "CHR ''/'' \<notin> set p"
  using assms by (auto simp: NormalizeJIDPart_def Let_def ContainsAny_def split: if_splits)

lemma TrimRight_id: "s \<noteq> [] \<Longrightarrow> last s \<noteq> c \<Longrightarrow> TrimRight s c = s"
  by (cases s rule: rev_cases) (simp_all add: TrimRight_def)

lemma TrimPrefix_id: "s \<noteq> [] \<Longrightarrow> hd s \<noteq> c \<Longrightarrow> TrimPrefix s [c] = s"
  by (cases s) (simp_all add: TrimPrefix_def)

lemma TrimSuffix_id: "s \<noteq> [] \<Longrightarrow> last s \<noteq> c \<Longrightarrow> TrimSuffix s [c] = s"
  by (cases s rule: rev_cases) (simp_all add: TrimSuffix_def)

lemma FromString_parts:
  assumes v: "ValidString s" and t: "TrimSpace s = s"
    and s: "s = l @ ''@'' @ d @ ''/'' @ r"
    and nl: "NormalizeJIDPart NF l = Inr l"
    and nd: "NormalizeJIDPart NF d = Inr d"
    and nr: "NormalizeJIDPart NF r = Inr r"
    and dot: "last d \<noteq> CHR ''.''" and lb: "hd d \<noteq> CHR ''[''" and rb: "last d \<noteq> CHR '']''"
    and v6: "\<not> isIPv6Addr d"
  shows "FromString NF isIPv6Addr address s =
           (\<lparr>localpart = l, domainpart = d, resourcepart = r\<rparr>, None)"
proof -
  note pl = NormalizeJIDPart_Inr [OF nl] and pd = NormalizeJIDPart_Inr [OF nd]
    and pr = NormalizeJIDPart_Inr [OF nr]
  have l0: "l \<noteq> []" and d0: "d \<noteq> []" and r0: "r \<noteq> []"
    using pl(1,2) pd(1,2) pr(1,2) by auto
  have sl: "\<forall>c \<in> set l. notSep c" and sd: "\<forall>c \<in> set d. notSep c" and sr: "notSep (hd r)"
    using pl(5,6) pd(5,6) pr(5,6) hd_in_set [OF r0] by (auto simp: notSep_def)
  have s': "s = l @ CHR ''@'' # d @ CHR ''/'' # r" by (simp add: s)
  have m: "MatchString_JIDMatch s"
    unfolding s' using l0 d0 r0 sl sd sr by (rule MatchString_parts)
  have at: "IndexRune s CHR ''@'' = int (length l)"
    unfolding s' using pl(5) by (rule IndexRune_at)
  have "CHR ''/'' \<notin> set (l @ CHR ''@'' # d)" using pl(6) pd(6) by simp
  then have "IndexRune ((l @ CHR ''@'' # d) @ CHR ''/'' # r) CHR ''/'' = int (length (l @ CHR ''@'' # d))"
    by (rule IndexRune_at)
  then have sla: "IndexRune s CHR ''/'' = int (length l) + 1 + int (length d)"
    by (simp add: s')
  have c1: "slice s 0 (int (length l)) = Some l"
    unfolding s' by (rule slice_prefix)
  have c2: "slice s (int (length l) + 1) (int (length l) + 1 + int (length d)) = Some d"
    unfolding s' by (rule slice_middle)
  have c3: "slice s (int (length l) + 1 + int (length d) + 1) (int (length s)) = Some r"
    unfolding s' by (rule slice_suffix)
  have e1: "SetLocalPart NF address l = (address\<lparr>localpart := l\<rparr>, None)"
    by (simp add: SetLocalPart_def nl)
  have e2: "SetDomainPart NF isIPv6Addr a d = (a\<lparr>domainpart := d\<rparr>, None)" for a
    using d0 dot lb rb v6
    by (simp add: SetDomainPart_def TrimRight_id TrimPrefix_id TrimSuffix_id nd)
  have e3: "SetResourcePart NF a r = (a\<lparr>resourcepart := r\<rparr>, None)" for a
    by (simp add: SetResourcePart_def nr)
  show ?thesis
    using c1 c2 c3 by (simp add: FromString_def v m t at sla e1 e2 e3)
qed

lemma runesOf_ascii:
  "\<forall>c \<in> set s. (of_char c :: nat) < 128 \<Longrightarrow> runesOf s = map (\<lambda>c. (of_char c, [c])) s"
  by (induction s) (simp_all add: DecodeRuneInString_def DecodeRune_def)

lemma fieldsOf_nospace:
  "\<forall>x \<in> set rs. \<not> IsSpace (fst x) \<Longrightarrow>
   fieldsOf rs cur = (if cur @ concat (map snd rs) = [] then [] else [cur @ concat (map snd rs)])"
proof (induction rs arbitrary: cur)
  case Nil
  show ?case by simp
next
  case (Cons x rs)
  obtain r bs where x: "x = (r, bs)" by (cases x)
  have "fieldsOf (x # rs) cur = fieldsOf rs (cur @ bs)"
    using Cons.prems by (simp add: x)
  also have "\<dots> = (if (cur @ bs) @ concat (map snd rs) = [] then []
                    else [(cur @ bs) @ concat (map snd rs)])"
    using Cons.prems by (intro Cons.IH) simp
  finally show ?case by (simp add: x)
qed

lemma ValidString_ascii: "\<forall>c \<in> set s. (of_char c :: nat) < 128 \<Longrightarrow> ValidString s"
  by (auto simp: ValidString_def runesOf_ascii list_all_iff RuneError_def)

lemma TrimSpace_ascii:
  assumes "\<forall>c \<in> set s. (of_char c :: nat) < 128" "s \<noteq> []"
    "\<not> IsSpace (of_char (hd s))" "\<not> IsSpace (of_char (last s))"
  shows "TrimSpace s = s"
proof -
  obtain c cs where c: "s = c # cs" using assms(2) by (cases s) auto
  obtain ds e where e: "s = ds @ [e]" using assms(2) by (cases s rule: rev_cases) auto
  have 1: "dropWhile (\<lambda>(r, bs). IsSpace r) (map (\<lambda>c. (of_char c, [c])) s) = map (\<lambda>c. (of_char c, [c])) s"
    using assms(3) by (simp add: c)
  have 2: "dropWhile (\<lambda>(r, bs). IsSpace r) (rev (map (\<lambda>c. (of_char c, [c])) s)) = rev (map (\<lambda>c. (of_char c, [c])) s)"
    using assms(4) by (simp add: e)
  have 3: "concat (map snd (map (\<lambda>c. (of_char c :: nat, [c])) s)) = s"
    by (induction s) simp_all
  show ?thesis
    unfolding TrimSpace_def runesOf_ascii [OF assms(1)] 1 2 rev_rev_ident 3 ..
qed

lemma Fields_quoted_ascii:
  assumes "\<forall>c \<in> set s. (of_char c :: nat) < 128 \<and> \<not> IsSpace (of_char c)"
  shows "length (Fields ([CHR 0x27] @ s @ [CHR 0x27])) = 1"
proof -
  have a: "\<forall>c \<in> set ([CHR 0x27] @ s @ [CHR 0x27]). (of_char c :: nat) < 128"
    using assms by simp
  have b: "\<forall>x \<in> set (map (\<lambda>c. (of_char c :: nat, [c])) ([CHR 0x27] @ s @ [CHR 0x27])). \<not> IsSpace (fst x)"
    using assms by (auto simp: IsSpace_def)
  show ?thesis
    unfolding Fields_def runesOf_ascii [OF a] fieldsOf_nospace [OF b] by simp
qed

lemmas jid_eval =
  NewJID_def FromString_def ValidString_def DecodeRuneInString_def DecodeRune_def RuneError_def
  ContainsRune_def matchHere_def notSep_def zeroJID_def TrimSpace_def IsSpace_def IndexRune_def
  slice_def SetLocalPart_def SetDomainPart_def SetResourcePart_def NormalizeJIDPart_def
  NF_ascii_def isIPv6_none_def ContainsAny_def Fields_def TrimRight_def TrimPrefix_def
  TrimSuffix_def String_def

lemma NewJID_example_net:
  "NewJID NF_ascii isIPv6_none ''example.net'' = (zeroJID, Some ERROR_NO_RESOURCE)"
  by (simp add: jid_eval)

lemma NewJID_mercutio_bare:
  "NewJID NF_ascii isIPv6_none ''mercutio@example.net'' = (zeroJID, Some ERROR_NO_RESOURCE)"
  by (simp add: jid_eval)

lemma NewJID_mercutio_rp_rp_rp:
  "NewJID NF_ascii isIPv6_none ''mercutio@example.net/rp@rp/rp'' =
     (\<lparr>localpart = ''mercutio'', domainpart = ''example.net'', resourcepart = []\<rparr>,
      Some ERROR_ILLEGAL_RUNE)"
  by (simp add: jid_eval)

lemma NewJID_mercutio_slashes:
  "NewJID NF_ascii isIPv6_none ''mercutio@example.net//@//'' = (zeroJID, Some ERROR_INVALID_JID)"
  by (simp add: jid_eval)

subsection \<open>Parsing and formatting\<close>

text \<open>
  C1, as stated: for the fixture strings \<open>example.net\<close>, \<open>mercutio@example.net\<close>,
  \<open>mercutio@example.net/rp@rp/rp\<close> and \<open>mercutio@example.net//@//\<close>, parsing and then
  formatting gives the string back. In this code it does not: \<open>FromString\<close> accepts only
  strings in which \<open>local@domain/resource\<close> occurs, it applies the illegal-character
  check to every part, and \<open>String\<close> always writes both separators. All four strings
  are rejected, and the JID left behind formats to something else.
\<close>

theorem parse_string_fixtures_counterexample:
  "snd (NewJID NF_ascii isIPv6_none ''example.net'') = Some ERROR_NO_RESOURCE
   \<and> String (fst (NewJID NF_ascii isIPv6_none ''example.net'')) = ''@/''
   \<and> snd (NewJID NF_ascii isIPv6_none ''mercutio@example.net'') = Some ERROR_NO_RESOURCE
   \<and> String (fst (NewJID NF_ascii isIPv6_none ''mercutio@example.net'')) = ''@/''
   \<and> snd (NewJID NF_ascii isIPv6_none ''mercutio@example.net/rp@rp/rp'')
       = Some ERROR_ILLEGAL_RUNE
   \<and> String (fst (NewJID NF_ascii isIPv6_none ''mercutio@example.net/rp@rp/rp''))
       = ''mercutio@example.net/''
   \<and> snd (NewJID NF_ascii isIPv6_none ''mercutio@example.net//@//'') = Some ERROR_INVALID_JID
   \<and> String (fst (NewJID NF_ascii isIPv6_none ''mercutio@example.net//@//'')) = ''@/''"
  by (simp add: NewJID_example_net NewJID_mercutio_bare NewJID_mercutio_rp_rp_rp
      NewJID_mercutio_slashes String_def zeroJID_def)

text \<open>
  C1, amended: a full JID string \<open>l@d/r\<close> round-trips. If \<open>s\<close> is valid UTF-8 without
  leading or trailing white space, \<open>s = l@d/r\<close>, part normalisation accepts each of
  \<open>l\<close>, \<open>d\<close>, \<open>r\<close> and leaves it unchanged, and \<open>d\<close> neither ends in a dot, nor is
  bracketed, nor is an IPv6 address, then parsing \<open>s\<close> succeeds with the parts
  \<open>l\<close>, \<open>d\<close>, \<open>r\<close>, and formatting the result gives \<open>s\<close>. Of the fixture set this
  covers \<open>mercutio@example.net/rp\<close>.
\<close>

theorem FromString_String_roundtrip:
  assumes "ValidString s" and "TrimSpace s = s"
    and "s = l @ ''@'' @ d @ ''/'' @ r"
    and "NormalizeJIDPart NF l = Inr l"
    and "NormalizeJIDPart NF d = Inr d"
    and "NormalizeJIDPart NF r = Inr r"
    and "last d \<noteq> CHR ''.''" and "hd d \<noteq> CHR ''[''" and "last d \<noteq> CHR '']''"
    and "\<not> isIPv6Addr d"
  shows "NewJID NF isIPv6Addr s = (\<lparr>localpart = l, domainpart = d, resourcepart = r\<rparr>, None)
         \<and> String (fst (NewJID NF isIPv6Addr s)) = s"
proof -
  have "FromString NF isIPv6Addr zeroJID s =
          (\<lparr>localpart = l, domainpart = d, resourcepart = r\<rparr>, None)"
    using assms by (rule FromString_parts)
  then show ?thesis
    using assms(3) by (simp add: NewJID_def String_def)
qed

theorem FromString_String_roundtrip_witness:
  "ValidString ''mercutio@example.net/rp''
   \<and> TrimSpace ''mercutio@example.net/rp'' = ''mercutio@example.net/rp''
   \<and> NormalizeJIDPart NF_ascii ''mercutio'' = Inr ''mercutio''
   \<and> NormalizeJIDPart NF_ascii ''example.net'' = Inr ''example.net''
   \<and> NormalizeJIDPart NF_ascii ''rp'' = Inr ''rp''
   \<and> NewJID NF_ascii isIPv6_none ''mercutio@example.net/rp''
       = (\<lparr>localpart = ''mercutio'', domainpart = ''example.net'', resourcepart = ''rp''\<rparr>,
          None)
   \<and> String (fst (NewJID NF_ascii isIPv6_none ''mercutio@example.net/rp''))
       = ''mercutio@example.net/rp''"
proof -
  have h1: "ValidString ''mercutio@example.net/rp''"
    by (rule ValidString_ascii) simp
  have h2: "TrimSpace ''mercutio@example.net/rp'' = ''mercutio@example.net/rp''"
    by (rule TrimSpace_ascii) (simp_all add: IsSpace_def)
  have h3: "''mercutio@example.net/rp'' = ''mercutio'' @ ''@'' @ ''example.net'' @ ''/'' @ ''rp''"
    by simp
  have h4: "NormalizeJIDPart NF_ascii ''mercutio'' = Inr ''mercutio''"
    by (simp add: jid_eval)
  have h5: "NormalizeJIDPart NF_ascii ''example.net'' = Inr ''example.net''"
    by (simp add: jid_eval)
  have h6: "NormalizeJIDPart NF_ascii ''rp'' = Inr ''rp''"
    by (simp add: jid_eval)
  have h7: "last ''example.net'' \<noteq> CHR ''.''" and h8: "hd ''example.net'' \<noteq> CHR ''[''"
    and h9: "last ''example.net'' \<noteq> CHR '']''" and h10: "\<not> isIPv6_none ''example.net''"
    by (simp_all add: isIPv6_none_def)
  show ?thesis
    using FromString_String_roundtrip [where s = "''mercutio@example.net/rp''"
        and l = "''mercutio''" and d = "''example.net''" and r = "''rp''"
        and NF = NF_ascii and isIPv6Addr = isIPv6_none, OF h1 h2 h3 h4 h5 h6 h7 h8 h9 h10]
      h1 h2 h4 h5 h6
    by blast
qed

text \<open>
  C2, as stated: a string with no \<open>@\<close> and no \<open>/\<close> is accepted as a domain-only JID,
  for example \<open>example.net\<close>. This parser rejects \<open>example.net\<close> with the error
  "String is a bare JID" and leaves the JID unset.
\<close>

theorem FromString_domain_only_counterexample:
  "FromString NF_ascii isIPv6_none zeroJID ''example.net'' = (zeroJID, Some ERROR_NO_RESOURCE)"
  by (simp add: jid_eval)

text \<open>
  C2, amended: a string that contains no \<open>/\<close> (so in particular one with no \<open>@\<close> and
  no \<open>/\<close>) is rejected and the JID is left as it was: the error is the bare-JID error
  \<open>ERROR_NO_RESOURCE\<close> when the string is valid UTF-8, and the invalid-string error
  otherwise.
\<close>

theorem FromString_no_slash:
  "CHR ''/'' \<notin> set s \<Longrightarrow>
   FromString NF isIPv6Addr address s =
     (address, Some (if ValidString s then ERROR_NO_RESOURCE else ERROR_INVALID_STRING))"
  using MatchString_slash [of s] by (auto simp: FromString_def ContainsRune_def)

theorem FromString_no_slash_witness:
  "CHR ''/'' \<notin> set ''example.net''
   \<and> FromString NF_ascii isIPv6_none zeroJID ''example.net''
       = (zeroJID, Some (if ValidString ''example.net'' then ERROR_NO_RESOURCE
                         else ERROR_INVALID_STRING))"
proof -
  have h: "CHR ''/'' \<notin> set ''example.net''" by simp
  show ?thesis
    using FromString_no_slash [OF h, of NF_ascii isIPv6_none zeroJID] h by simp
qed

subsection \<open>The length bound of a part\<close>

text \<open>
  C3: a part whose NFKC form is longer than 1023 bytes is rejected with the long-part
  error, and 1023 bytes are within the bound: a part whose NFKC form has exactly 1023
  bytes is never rejected with the long-part error, and it is accepted (its NFKC form is
  returned) when the remaining checks pass, that is, when the part is valid UTF-8 and
  has none of the illegal characters and its NFKC form has no white space.
\<close>

theorem NormalizeJIDPart_length_bound:
  "(1023 < length (NF part) \<longrightarrow> NormalizeJIDPart NF part = Inl ERROR_LONG_PART)
   \<and> (length (NF part) = 1023 \<longrightarrow>
        NormalizeJIDPart NF part \<noteq> Inl ERROR_LONG_PART
        \<and> (ValidString part
             \<and> \<not> ContainsAny part [CHR 0x22, CHR ''&'', CHR 0x27, CHR ''/'', CHR '':'',
                                    CHR ''<'', CHR ''>'', CHR ''@'']
             \<and> length (Fields ([CHR 0x27] @ NF part @ [CHR 0x27])) = 1
           \<longrightarrow> NormalizeJIDPart NF part = Inr (NF part)))"
  by (simp add: NormalizeJIDPart_def Let_def)

theorem NormalizeJIDPart_length_bound_witness:
  "NormalizeJIDPart NF_ascii (replicate 1024 CHR ''a'') = Inl ERROR_LONG_PART
   \<and> NormalizeJIDPart NF_ascii (replicate 1023 CHR ''a'') = Inr (replicate 1023 CHR ''a'')"
proof -
  have l1: "1023 < length (NF_ascii (replicate 1024 CHR ''a''))"
    by (simp add: NF_ascii_def)
  have l2: "length (NF_ascii (replicate 1023 CHR ''a'')) = 1023"
    by (simp add: NF_ascii_def)
  have v: "ValidString (replicate 1023 CHR ''a'')"
    by (rule ValidString_ascii) simp
  have c: "\<not> ContainsAny (replicate 1023 CHR ''a'')
               [CHR 0x22, CHR ''&'', CHR 0x27, CHR ''/'', CHR '':'', CHR ''<'', CHR ''>'', CHR ''@'']"
    by (simp add: ContainsAny_def)
  have f: "length (Fields ([CHR 0x27] @ NF_ascii (replicate 1023 CHR ''a'') @ [CHR 0x27])) = 1"
    unfolding NF_ascii_def by (rule Fields_quoted_ascii) (simp add: IsSpace_def)
  from NormalizeJIDPart_length_bound [of NF_ascii "replicate 1024 CHR ''a''"] l1
  have a: "NormalizeJIDPart NF_ascii (replicate 1024 CHR ''a'') = Inl ERROR_LONG_PART"
    by blast
  from NormalizeJIDPart_length_bound [of NF_ascii "replicate 1023 CHR ''a''"] l2 v c f
  have "NormalizeJIDPart NF_ascii (replicate 1023 CHR ''a'')
          = Inr (NF_ascii (replicate 1023 CHR ''a''))"
    by blast
  then show ?thesis using a by (simp add: NF_ascii_def)
qed


section \<open>Properties of the session\<close>

subsection \<open>Reading from a closed input stream\<close>

text \<open>
  The byte-level read that the sources contain, \<open>Conn.Read\<close>, has the guard on the
  \<open>InputStreamClosed\<close> bit: with the bit set it returns an error value made in the call,
  without touching the transport, and otherwise it is the read of the transport.
\<close>

lemma Conn_Read_guard:
  "(state c AND InputStreamClosed = InputStreamClosed \<longrightarrow>
      Conn_Read addr c n = (([], Some (ErrorsNew addr ''XML input stream is closed'')), c))
   \<and> (state c AND InputStreamClosed \<noteq> InputStreamClosed \<longrightarrow>
        Conn_Read addr c n = (fst (RWC_Read (rwc c) n), c\<lparr>rwc := snd (RWC_Read (rwc c) n)\<rparr>))"
  by (simp add: Conn_Read_def split: prod.splits)



subsection \<open>Auxiliary facts about the features list\<close>

lemma writeFeatureLoop_filter:
  "writeFeatureLoop ctx st (filter (advertisable st) fs) l e = writeFeatureLoop ctx st fs l e"
  by (induction fs arbitrary: l e) (auto split: prod.splits option.splits)

lemma writeFeatureLoop_cache:
  assumes "writeFeatureLoop ctx st fs l e = (l', err, e')" and "cache l' ns = Some d"
  shows "cache l ns = Some d
         \<or> (feature d \<in> set fs \<and> advertisable st (feature d) \<and> Space (Name (feature d)) = ns
             \<and> data d = None)"
  using assms
proof (induction fs arbitrary: l e)
  case Nil
  then show ?case by simp
next
  case (Cons f fs)
  show ?case
  proof (cases "advertisable st f")
    case False
    with Cons.prems have "writeFeatureLoop ctx st fs l e = (l', err, e')" by simp
    from Cons.IH [OF this Cons.prems(2)] show ?thesis by auto
  next
    case True
    obtain r lerr e1 where L: "List f ctx e (StartElement (Name f) []) = ((r, lerr), e1)"
      by (metis prod.exhaust)
    show ?thesis
    proof (cases lerr)
      case (Some x)
      with Cons.prems True L have "l' = l" by simp
      with Cons.prems(2) show ?thesis by simp
    next
      case None
      let ?l1 = "l\<lparr>cache := (cache l)(Space (Name f) \<mapsto> \<lparr>req = r, data = None, feature = f\<rparr>),
                    list_req := (if r then True else list_req l), total := total l + 1\<rparr>"
      from Cons.prems True L None
      have "writeFeatureLoop ctx st fs ?l1 e1 = (l', err, e')" by simp
      from Cons.IH [OF this Cons.prems(2)]
      show ?thesis using True by (auto split: if_splits)
    qed
  qed
qed

lemma writeFeatureLoop_complete:
  assumes "writeFeatureLoop ctx st fs l e = (l', None, e')"
  shows "total l' = total l + length (filter (advertisable st) fs)
         \<and> dom (cache l') = dom (cache l) \<union> (\<lambda>f. Space (Name f)) ` {f \<in> set fs. advertisable st f}"
  using assms
proof (induction fs arbitrary: l e)
  case Nil
  then show ?case by simp
next
  case (Cons f fs)
  show ?case
  proof (cases "advertisable st f")
    case False
    with Cons.prems have "writeFeatureLoop ctx st fs l e = (l', None, e')" by simp
    from Cons.IH [OF this] False show ?thesis by auto
  next
    case True
    obtain r lerr e1 where L: "List f ctx e (StartElement (Name f) []) = ((r, lerr), e1)"
      by (metis prod.exhaust)
    show ?thesis
    proof (cases lerr)
      case (Some x)
      with Cons.prems True L show ?thesis by simp
    next
      case None
      let ?l1 = "l\<lparr>cache := (cache l)(Space (Name f) \<mapsto> \<lparr>req = r, data = None, feature = f\<rparr>),
                    list_req := (if r then True else list_req l), total := total l + 1\<rparr>"
      from Cons.prems True L None
      have "writeFeatureLoop ctx st fs ?l1 e1 = (l', None, e')" by simp
      from Cons.IH [OF this]
      have t: "total l' = total ?l1 + length (filter (advertisable st) fs)"
        and d: "dom (cache l') = dom (cache ?l1)
                  \<union> (\<lambda>f. Space (Name f)) ` {f \<in> set fs. advertisable st f}"
        by blast+
      have d1: "dom (cache ?l1) = insert (Space (Name f)) (dom (cache l))" by simp
      have i: "(\<lambda>f. Space (Name f)) ` {g \<in> set (f # fs). advertisable st g}
                 = insert (Space (Name f)) ((\<lambda>f. Space (Name f)) ` {g \<in> set fs. advertisable st g})"
        using True by auto
      show ?thesis
        unfolding i d d1 using t True by simp
    qed
  qed
qed

lemma writeStreamFeatures_filter:
  "writeStreamFeatures ctx (filter (advertisable (state s)) fs) s = writeStreamFeatures ctx fs s"
  by (simp add: writeStreamFeatures_def writeFeatureLoop_filter cong: prod.case_cong option.case_cong)

lemma writeStreamFeatures_loop:
  assumes "writeStreamFeatures ctx fs s = (Some l, err, s')"
  shows "\<exists>e0 lerr e1. writeFeatureLoop ctx (state s) fs emptyList e0 = (l, lerr, e1)
           \<and> (err = None \<longrightarrow> lerr = None)"
  using assms
  by (auto simp: writeStreamFeatures_def split: prod.splits option.splits)

lemma writeFeatureLoop_listEach:
  assumes "writeFeatureLoop ctx st fs l e = (l', err, e')"
  shows "\<exists>rs. listEach ctx (filter (advertisable st) fs) e = (rs, err, e')
           \<and> (err = None \<longrightarrow> list_req l' = (list_req l \<or> True \<in> set rs))"
  using assms
proof (induction fs arbitrary: l e)
  case Nil
  then show ?case by simp
next
  case (Cons f fs)
  show ?case
  proof (cases "advertisable st f")
    case False
    with Cons.prems have "writeFeatureLoop ctx st fs l e = (l', err, e')" by simp
    from Cons.IH [OF this] False show ?thesis by simp
  next
    case True
    obtain r lerr e1 where L: "List f ctx e (StartElement (Name f) []) = ((r, lerr), e1)"
      by (metis prod.exhaust)
    show ?thesis
    proof (cases lerr)
      case (Some x)
      with Cons.prems True L have "l' = l" "err = Some x" "e' = e1" by simp_all
      then show ?thesis using True L Some by simp
    next
      case None
      let ?l1 = "l\<lparr>cache := (cache l)(Space (Name f) \<mapsto> \<lparr>req = r, data = None, feature = f\<rparr>),
                    list_req := (if r then True else list_req l), total := total l + 1\<rparr>"
      from Cons.prems True L None
      have "writeFeatureLoop ctx st fs ?l1 e1 = (l', err, e')" by simp
      from Cons.IH [OF this] obtain rs
        where a: "listEach ctx (filter (advertisable st) fs) e1 = (rs, err, e')"
          and b: "err = None \<longrightarrow> list_req l' = (list_req ?l1 \<or> True \<in> set rs)"
        by blast
      have c: "listEach ctx (filter (advertisable st) (f # fs)) e = (r # rs, err, e')"
        using True L None a by simp
      have d: "err = None \<longrightarrow> list_req l' = (list_req l \<or> True \<in> set (r # rs))"
        using b by (cases r) simp_all
      from c d show ?thesis by blast
    qed
  qed
qed


lemma writeStreamFeatures_written:
  assumes "writeStreamFeatures ctx fs s = (Some l, err, s')"
  shows "\<exists>e0 rs lerr e1.
           EncodeToken (enc s) streamFeaturesStart = (None, e0)
           \<and> listEach ctx (filter (advertisable (state s)) fs) e0 = (rs, lerr, e1)
           \<and> (case lerr of
                 Some x \<Rightarrow> err = Some x \<and> s' = s\<lparr>enc := e1\<rparr>
               | None \<Rightarrow>
                   list_req l = (True \<in> set rs)
                   \<and> (case EncodeToken e1 (End streamFeaturesStart) of
                         (Some x, e2) \<Rightarrow> err = Some x \<and> s' = s\<lparr>enc := e2\<rparr>
                       | (None, e2) \<Rightarrow> err = fst (Flush e2) \<and> s' = s\<lparr>enc := snd (Flush e2)\<rparr>))"
proof -
  obtain x0 e0 where t0: "EncodeToken (enc s) streamFeaturesStart = (x0, e0)"
    by (cases "EncodeToken (enc s) streamFeaturesStart")
  have x0: "x0 = None"
    using assms t0 by (cases x0) (simp_all add: writeStreamFeatures_def)
  obtain l1 lerr e1 where w: "writeFeatureLoop ctx (state s) fs emptyList e0 = (l1, lerr, e1)"
    by (metis prod.exhaust)
  from writeFeatureLoop_listEach [OF w] obtain rs
    where a: "listEach ctx (filter (advertisable (state s)) fs) e0 = (rs, lerr, e1)"
      and b: "lerr = None \<longrightarrow> list_req l1 = (True \<in> set rs)"
    by (auto simp: emptyList_def)
  have u: "writeStreamFeatures ctx fs s =
             (case lerr of
                Some x \<Rightarrow> (Some l1, Some x, s\<lparr>enc := e1\<rparr>)
              | None \<Rightarrow>
                  (case EncodeToken e1 (End streamFeaturesStart) of
                     (Some x, e2) \<Rightarrow> (Some l1, Some x, s\<lparr>enc := e2\<rparr>)
                   | (None, e2) \<Rightarrow> (Some l1, fst (Flush e2), s\<lparr>enc := snd (Flush e2)\<rparr>)))"
    by (simp add: writeStreamFeatures_def t0 x0 w split: option.splits prod.splits)
  have c: "case lerr of
             Some x \<Rightarrow> err = Some x \<and> s' = s\<lparr>enc := e1\<rparr>
           | None \<Rightarrow>
               list_req l = (True \<in> set rs)
               \<and> (case EncodeToken e1 (End streamFeaturesStart) of
                     (Some x, e2) \<Rightarrow> err = Some x \<and> s' = s\<lparr>enc := e2\<rparr>
                   | (None, e2) \<Rightarrow> err = fst (Flush e2) \<and> s' = s\<lparr>enc := snd (Flush e2)\<rparr>)"
  proof (cases lerr)
    case (Some x)
    have "writeStreamFeatures ctx fs s = (Some l1, Some x, s\<lparr>enc := e1\<rparr>)"
      unfolding u Some by simp
    with assms have "err = Some x" "s' = s\<lparr>enc := e1\<rparr>" by simp_all
    then show ?thesis unfolding Some by simp
  next
    case None
    obtain x2 e2 where t2: "EncodeToken e1 (End streamFeaturesStart) = (x2, e2)"
      by (metis prod.exhaust)
    have lr: "list_req l1 = (True \<in> set rs)" using b None by simp
    show ?thesis
    proof (cases x2)
      case xn: None
      have "writeStreamFeatures ctx fs s = (Some l1, fst (Flush e2), s\<lparr>enc := snd (Flush e2)\<rparr>)"
        unfolding u None t2 xn by simp
      with assms have "l = l1" "err = fst (Flush e2)" "s' = s\<lparr>enc := snd (Flush e2)\<rparr>"
        by simp_all
      then show ?thesis unfolding None t2 xn using lr by simp
    next
      case (Some x)
      have "writeStreamFeatures ctx fs s = (Some l1, Some x, s\<lparr>enc := e2\<rparr>)"
        unfolding u None t2 Some by simp
      with assms have "l = l1" "err = Some x" "s' = s\<lparr>enc := e2\<rparr>" by simp_all
      then show ?thesis unfolding None t2 Some using lr by simp
    qed
  qed
  from t0 x0 a c show ?thesis by blast
qed

lemma writeStreamFeatures_nil:
  assumes "writeStreamFeatures ctx fs s = (None, err, s')"
  shows "\<exists>x e0. EncodeToken (enc s) streamFeaturesStart = (Some x, e0) \<and> err = Some x
           \<and> s' = s\<lparr>enc := e0\<rparr>"
  using assms by (auto simp: writeStreamFeatures_def split: prod.splits option.splits)

lemmas example_eval =
  exampleFeatures_def exampleFeature_def exampleConn_def exampleRWC_def
  writeStreamFeatures_def EncodeToken_def Flush_def streamFeaturesStart_def emptyList_def
  advertisable_def Secure_def Authn_def Received_def Ready_def ns_SASL_def ns_StartTLS_def
  Decoder_Token_def runNegotiate_def negotiateFeatures_def

lemmas example_read =
  readStreamFeatures_def Decoder_Skip_def exampleVisit_def ns_Stream_def map_filter_simps

lemma example_written:
  "writeStreamFeatures None exampleFeatures (exampleConn Received ts) =
     (Some \<lparr>total = 1, list_req = True,
            cache = [ns_StartTLS \<mapsto> \<lparr>req = True, data = None, feature = hd exampleFeatures\<rparr>]\<rparr>,
      None,
      (exampleConn Received ts)\<lparr>enc := (enc (exampleConn Received ts))
         \<lparr>emitted := [streamFeaturesStart,
                       StartElement \<lparr>Space = ns_StartTLS, Local = ''starttls''\<rparr> [],
                       EndElement \<lparr>Space = ns_StartTLS, Local = ''starttls''\<rparr>,
                       End streamFeaturesStart]\<rparr>\<rparr>)"
  by (simp add: example_eval)

subsection \<open>Advertising features\<close>

text \<open>
  C5: when the responder writes its features list, a configured feature is included
  exactly when all its \<open>Necessary\<close> bits are set in the session state and none of its
  \<open>Prohibited\<close> bits is. The features that fail the test have no effect on what
  \<open>writeStreamFeatures\<close> does: it behaves as on the list of the features that pass.
  Every entry of the advertised cache is a configured feature that passes the test,
  under its own namespace, so a feature whose \<open>Necessary\<close> bits are not all set is never
  advertised. What is written is the opening \<open>stream:features\<close> token, then what the
  \<open>List\<close> operations of the features that pass write, called in the configured order
  (\<open>listEach\<close>) up to the first error, and, when none failed, the closing token,
  flushed; the list is required when one of these calls said so. When the list was
  written without error, \<open>total\<close> counts the features that pass, and a namespace is in
  the cache exactly when a configured feature with that namespace passes.
\<close>

theorem writeStreamFeatures_advertised:
  "writeStreamFeatures ctx fs s = writeStreamFeatures ctx (filter (advertisable (state s)) fs) s
   \<and> (\<forall>l err s'. writeStreamFeatures ctx fs s = (Some l, err, s') \<longrightarrow>
         (\<forall>ns d. cache l ns = Some d \<longrightarrow>
            feature d \<in> set fs \<and> Space (Name (feature d)) = ns
            \<and> state s AND Necessary (feature d) = Necessary (feature d)
            \<and> state s AND Prohibited (feature d) = 0)
         \<and> (\<exists>e0 rs lerr e1.
               EncodeToken (enc s) streamFeaturesStart = (None, e0)
               \<and> listEach ctx (filter (advertisable (state s)) fs) e0 = (rs, lerr, e1)
               \<and> (case lerr of
                     Some x \<Rightarrow> err = Some x \<and> s' = s\<lparr>enc := e1\<rparr>
                   | None \<Rightarrow>
                       list_req l = (True \<in> set rs)
                       \<and> (case EncodeToken e1 (End streamFeaturesStart) of
                             (Some x, e2) \<Rightarrow> err = Some x \<and> s' = s\<lparr>enc := e2\<rparr>
                           | (None, e2) \<Rightarrow>
                               err = fst (Flush e2) \<and> s' = s\<lparr>enc := snd (Flush e2)\<rparr>)))
         \<and> (err = None \<longrightarrow>
              total l = length (filter (advertisable (state s)) fs)
              \<and> (\<forall>f \<in> set fs.
                    Space (Name f) \<in> dom (cache l) \<longleftrightarrow>
                      (\<exists>g \<in> set fs. Space (Name g) = Space (Name f)
                         \<and> state s AND Necessary g = Necessary g
                         \<and> state s AND Prohibited g = 0))))"
proof (intro conjI allI impI)
  show "writeStreamFeatures ctx fs s = writeStreamFeatures ctx (filter (advertisable (state s)) fs) s"
    by (simp add: writeStreamFeatures_filter)
next
  fix l err s' ns d
  assume w: "writeStreamFeatures ctx fs s = (Some l, err, s')" and c: "cache l ns = Some d"
  from writeStreamFeatures_loop [OF w] obtain e0 lerr e1
    where "writeFeatureLoop ctx (state s) fs emptyList e0 = (l, lerr, e1)" by blast
  from writeFeatureLoop_cache [OF this c]
  have *: "feature d \<in> set fs \<and> advertisable (state s) (feature d) \<and> Space (Name (feature d)) = ns"
    by (simp add: emptyList_def)
  from * show "feature d \<in> set fs" by simp
  from * show "Space (Name (feature d)) = ns" by simp
  from * show "state s AND Necessary (feature d) = Necessary (feature d)"
    by (simp add: advertisable_def)
  from * show "state s AND Prohibited (feature d) = 0"
    by (simp add: advertisable_def)
next
  fix l err s'
  assume w: "writeStreamFeatures ctx fs s = (Some l, err, s')"
  then show "\<exists>e0 rs lerr e1.
               EncodeToken (enc s) streamFeaturesStart = (None, e0)
               \<and> listEach ctx (filter (advertisable (state s)) fs) e0 = (rs, lerr, e1)
               \<and> (case lerr of
                     Some x \<Rightarrow> err = Some x \<and> s' = s\<lparr>enc := e1\<rparr>
                   | None \<Rightarrow>
                       list_req l = (True \<in> set rs)
                       \<and> (case EncodeToken e1 (End streamFeaturesStart) of
                             (Some x, e2) \<Rightarrow> err = Some x \<and> s' = s\<lparr>enc := e2\<rparr>
                           | (None, e2) \<Rightarrow>
                               err = fst (Flush e2) \<and> s' = s\<lparr>enc := snd (Flush e2)\<rparr>))"
    by (rule writeStreamFeatures_written)
next
  fix l err s'
  assume w: "writeStreamFeatures ctx fs s = (Some l, err, s')" and e: "err = None"
  from writeStreamFeatures_loop [OF w] e obtain e0 e1
    where "writeFeatureLoop ctx (state s) fs emptyList e0 = (l, None, e1)" by blast
  from writeFeatureLoop_complete [OF this]
  have t: "total l = length (filter (advertisable (state s)) fs)"
    and d: "dom (cache l) = (\<lambda>f. Space (Name f)) ` {f \<in> set fs. advertisable (state s) f}"
    by (simp_all add: emptyList_def)
  show "total l = length (filter (advertisable (state s)) fs)" by (rule t)
  show "\<forall>f \<in> set fs.
          Space (Name f) \<in> dom (cache l) \<longleftrightarrow>
            (\<exists>g \<in> set fs. Space (Name g) = Space (Name f)
               \<and> state s AND Necessary g = Necessary g \<and> state s AND Prohibited g = 0)"
    unfolding d by (fastforce simp: advertisable_def image_iff)
qed

theorem writeStreamFeatures_advertised_witness:
  "(\<exists>l s'. writeStreamFeatures None exampleFeatures (exampleConn Received []) = (Some l, None, s')
        \<and> total l = 1
        \<and> ns_StartTLS \<in> dom (cache l) \<and> ns_SASL \<notin> dom (cache l)
        \<and> emitted (enc s') =
            [streamFeaturesStart,
             StartElement \<lparr>Space = ns_StartTLS, Local = ''starttls''\<rparr> [],
             EndElement \<lparr>Space = ns_StartTLS, Local = ''starttls''\<rparr>,
             End streamFeaturesStart])"
proof -
  let ?s = "exampleConn Received [] :: (string list) Conn"
  obtain l s' where w: "writeStreamFeatures None exampleFeatures ?s = (Some l, None, s')"
    using example_written [of "[]"] by blast
  from writeStreamFeatures_advertised [of None exampleFeatures ?s] w
  have t: "total l = length (filter (advertisable (state ?s)) exampleFeatures)"
    and d: "\<forall>f \<in> set exampleFeatures.
              Space (Name f) \<in> dom (cache l) \<longleftrightarrow>
                (\<exists>g \<in> set exampleFeatures. Space (Name g) = Space (Name f)
                   \<and> state ?s AND Necessary g = Necessary g \<and> state ?s AND Prohibited g = 0)"
    and x: "\<exists>e0 rs lerr e1.
               EncodeToken (enc ?s) streamFeaturesStart = (None, e0)
               \<and> listEach None (filter (advertisable (state ?s)) exampleFeatures) e0 = (rs, lerr, e1)
               \<and> (case lerr of
                     Some x \<Rightarrow> None = Some x \<and> s' = ?s\<lparr>enc := e1\<rparr>
                   | None \<Rightarrow>
                       list_req l = (True \<in> set rs)
                       \<and> (case EncodeToken e1 (End streamFeaturesStart) of
                             (Some x, e2) \<Rightarrow> None = Some x \<and> s' = ?s\<lparr>enc := e2\<rparr>
                           | (None, e2) \<Rightarrow>
                               None = fst (Flush e2) \<and> s' = ?s\<lparr>enc := snd (Flush e2)\<rparr>))"
    by blast+
  have "total l = 1"
    using t by (simp add: example_eval)
  moreover have "ns_StartTLS \<in> dom (cache l)" and "ns_SASL \<notin> dom (cache l)"
    using d by (simp_all add: example_eval)
  moreover have "emitted (enc s') =
            [streamFeaturesStart,
             StartElement \<lparr>Space = ns_StartTLS, Local = ''starttls''\<rparr> [],
             EndElement \<lparr>Space = ns_StartTLS, Local = ''starttls''\<rparr>,
             End streamFeaturesStart]"
    using x by (auto simp: example_eval split: option.splits prod.splits)
  ultimately show ?thesis using w by blast
qed

subsection \<open>The responder's round of negotiation\<close>



subsection \<open>After Negotiate returns\<close>

text \<open>
  C10: in \<open>negotiateFeatures\<close>, when the \<open>Negotiate\<close> operation of the feature of a round
  returns, the namespace of the feature is recorded as negotiated whether or not an error
  was returned, and the returned mask is OR-ed into the session state only when no error
  was returned. This holds for the responder, whose round negotiates the advertised
  feature that the peer names, and for the initiator, whose round negotiates the feature
  selected among those read from the peer: \<open>negotiateFeatures\<close> returns the session that
  \<open>Negotiate\<close> left, with these two updates and no other, when the feature is required
  or a transport was returned, and goes on to its next round from that session
  otherwise.
\<close>

theorem negotiateFeatures_records:
  assumes "Negotiate (feature d) ctx cn (data d) = Return ((msk, rw, err), cr)"
    and "(state c AND Received = Received
          \<and> writeStreamFeatures ctx fs c = (Some l, None, cw)
          \<and> pending (dec cw) = StartElement nm attrs # rest
          \<and> cache l (Space nm) = Some d \<and> Space nm \<notin> negotiated cw
          \<and> cn = cw\<lparr>dec := (dec cw)\<lparr>pending := rest\<rparr>\<rparr>)
         \<or> (state c AND Received \<noteq> Received
             \<and> pending (dec c) = StartElement nm attrs # rest
             \<and> readStreamFeatures (Suc k) ctx fs (c\<lparr>dec := (dec c)\<lparr>pending := rest\<rparr>\<rparr>) nm
                 = Some (Some l, None, cn)
             \<and> total l \<noteq> 0 \<and> dom (cache l) \<noteq> {}
             \<and> selectFeature (visit (cache l)) (negotiated cn) None = Some d
             \<and> Local (Name (feature d)) \<noteq> [])"
  shows "negotiateFeatures (Suc k) ctx visit fs c =
           (let cf = cr\<lparr>state := (if err = None then state cr OR msk else state cr),
                        negotiated := insert (Space (Name (feature d))) (negotiated cr)\<rparr>
            in if rw \<noteq> None \<or> req d
               then Some (Return ((\<not> list_req l \<or> state cf AND Ready = Ready, rw, err), cf))
               else negotiateLoop k ctx visit (state c AND Received = Received) l cf)"
  using assms(2)
proof (elim disjE conjE)
  assume a: "state c AND Received = Received"
    "writeStreamFeatures ctx fs c = (Some l, None, cw)"
    "pending (dec cw) = StartElement nm attrs # rest"
    "cache l (Space nm) = Some d" "Space nm \<notin> negotiated cw"
    "cn = cw\<lparr>dec := (dec cw)\<lparr>pending := rest\<rparr>\<rparr>"
  from assms(1) a(6)
  have n: "Negotiate (feature d) ctx (cw\<lparr>dec := (dec cw)\<lparr>pending := rest\<rparr>\<rparr>) (data d)
             = Return ((msk, rw, err), cr)" by simp
  show ?thesis
    using a(1-5) n
    by (simp add: negotiateFeatures_def Decoder_Token_def runNegotiate_def Let_def)
next
  assume a: "state c AND Received \<noteq> Received"
    "pending (dec c) = StartElement nm attrs # rest"
    "readStreamFeatures (Suc k) ctx fs (c\<lparr>dec := (dec c)\<lparr>pending := rest\<rparr>\<rparr>) nm
       = Some (Some l, None, cn)"
    "total l \<noteq> 0" "dom (cache l) \<noteq> {}"
    "selectFeature (visit (cache l)) (negotiated cn) None = Some d"
    "Local (Name (feature d)) \<noteq> []"
  show ?thesis
    using a assms(1)
    by (simp add: negotiateFeatures_def Decoder_Token_def runNegotiate_def Let_def)
qed

theorem negotiateFeatures_records_witness:
  "(\<exists>c'. negotiateFeatures (Suc 0) None exampleVisit exampleFeatures
            (exampleConn Received [StartElement \<lparr>Space = ns_StartTLS, Local = ''starttls''\<rparr> [],
                                   EndElement \<lparr>Space = ns_StartTLS, Local = ''starttls''\<rparr>])
          = Some (Return ((False, None, Some ErrTLSUpgradeFailed), c'))
        \<and> state c' = Received \<and> negotiated c' = {ns_StartTLS})
   \<and> (\<exists>c'. negotiateFeatures (Suc (Suc 0)) None exampleVisit exampleFeatures
            (exampleConn Secure [StartElement \<lparr>Space = ns_Stream, Local = ''features''\<rparr> [],
                                 StartElement \<lparr>Space = ns_SASL, Local = ''mechanisms''\<rparr> [],
                                 EndElement \<lparr>Space = ns_SASL, Local = ''mechanisms''\<rparr>,
                                 EndElement \<lparr>Space = ns_Stream, Local = ''features''\<rparr>])
          = Some (Return ((False, None, None), c'))
        \<and> state c' = Secure OR Authn \<and> negotiated c' = {ns_SASL})
   \<and> (\<exists>c'. negotiateFeatures (Suc (Suc 0)) None exampleVisit exampleFeatures
            (exampleConn 0 [StartElement \<lparr>Space = ns_Stream, Local = ''features''\<rparr> [],
                            StartElement \<lparr>Space = ns_StartTLS, Local = ''starttls''\<rparr> [],
                            EndElement \<lparr>Space = ns_StartTLS, Local = ''starttls''\<rparr>,
                            EndElement \<lparr>Space = ns_Stream, Local = ''features''\<rparr>])
          = Some (Return ((False, None, Some ErrTLSUpgradeFailed), c'))
        \<and> state c' = 0 \<and> negotiated c' = {ns_StartTLS})"
proof -
  let ?tls = "\<lparr>Space = ns_StartTLS, Local = ''starttls''\<rparr>"
  let ?sasl = "\<lparr>Space = ns_SASL, Local = ''mechanisms''\<rparr>"
  let ?feat = "\<lparr>Space = ns_Stream, Local = ''features''\<rparr>"
  let ?a = "[StartElement ?tls [], EndElement ?tls]"
  let ?ca = "exampleConn Received ?a"
  let ?cw = "?ca\<lparr>enc := (enc ?ca)
               \<lparr>emitted := [streamFeaturesStart, StartElement ?tls [], EndElement ?tls,
                             End streamFeaturesStart]\<rparr>\<rparr>"
  let ?da = "\<lparr>req = True, data = None, feature = hd exampleFeatures\<rparr>"
  let ?cna = "?cw\<lparr>dec := (dec ?cw)\<lparr>pending := [EndElement ?tls]\<rparr>\<rparr>"
  have na: "Negotiate (feature ?da) None ?cna (data ?da)
              = Return ((Secure, None, Some ErrTLSUpgradeFailed), ?cna)"
    by (simp add: exampleFeatures_def exampleFeature_def)
  have 1: "\<exists>c'. negotiateFeatures (Suc 0) None exampleVisit exampleFeatures ?ca
                  = Some (Return ((False, None, Some ErrTLSUpgradeFailed), c'))
               \<and> state c' = Received \<and> negotiated c' = {ns_StartTLS}"
    using negotiateFeatures_records [OF na, where c = ?ca and fs = exampleFeatures and cw = ?cw
        and l = "\<lparr>total = 1, list_req = True, cache = [ns_StartTLS \<mapsto> ?da]\<rparr>"
        and nm = ?tls and attrs = "[]" and rest = "[EndElement ?tls]" and k = 0
        and visit = exampleVisit]
      example_written [of ?a]
    by (simp add: exampleConn_def exampleFeatures_def exampleFeature_def Received_def Ready_def
        Secure_def ns_StartTLS_def)
  let ?b = "[StartElement ?feat [], StartElement ?sasl [], EndElement ?sasl, EndElement ?feat]"
  let ?cb = "exampleConn Secure ?b"
  let ?db = "\<lparr>req = True, data = None, feature = exampleFeatures ! 1\<rparr>"
  let ?cnb = "?cb\<lparr>dec := (dec ?cb)\<lparr>pending := []\<rparr>, features := [ns_SASL \<mapsto> None]\<rparr>"
  have nb: "Negotiate (feature ?db) None ?cnb (data ?db) = Return ((Authn, None, None), ?cnb)"
    by (simp add: exampleFeatures_def exampleFeature_def)
  have 2: "\<exists>c'. negotiateFeatures (Suc (Suc 0)) None exampleVisit exampleFeatures ?cb
                  = Some (Return ((False, None, None), c'))
               \<and> state c' = Secure OR Authn \<and> negotiated c' = {ns_SASL}"
    using negotiateFeatures_records [OF nb, where c = ?cb and fs = exampleFeatures
        and l = "\<lparr>total = 1, list_req = True, cache = [ns_SASL \<mapsto> ?db]\<rparr>"
        and nm = ?feat and attrs = "[]"
        and rest = "[StartElement ?sasl [], EndElement ?sasl, EndElement ?feat]" and k = "Suc 0"
        and visit = exampleVisit]
    by (simp add: example_eval example_read)
  let ?c = "[StartElement ?feat [], StartElement ?tls [], EndElement ?tls, EndElement ?feat]"
  let ?cc = "exampleConn 0 ?c"
  let ?cnc = "?cc\<lparr>dec := (dec ?cc)\<lparr>pending := []\<rparr>, features := [ns_StartTLS \<mapsto> None]\<rparr>"
  have nc: "Negotiate (feature ?da) None ?cnc (data ?da)
              = Return ((Secure, None, Some ErrTLSUpgradeFailed), ?cnc)"
    by (simp add: exampleFeatures_def exampleFeature_def)
  have 3: "\<exists>c'. negotiateFeatures (Suc (Suc 0)) None exampleVisit exampleFeatures ?cc
                  = Some (Return ((False, None, Some ErrTLSUpgradeFailed), c'))
               \<and> state c' = 0 \<and> negotiated c' = {ns_StartTLS}"
    using negotiateFeatures_records [OF nc, where c = ?cc and fs = exampleFeatures
        and l = "\<lparr>total = 1, list_req = True, cache = [ns_StartTLS \<mapsto> ?da]\<rparr>"
        and nm = ?feat and attrs = "[]"
        and rest = "[StartElement ?tls [], EndElement ?tls, EndElement ?feat]" and k = "Suc 0"
        and visit = exampleVisit]
    by (simp add: example_eval example_read)
  from 1 2 3 show ?thesis by blast
qed

section \<open>Properties of the features\<close>

subsection \<open>Auxiliary facts about writing\<close>

lemma Fprint_other:
  "dec (snd (Fprint c b)) = dec c" "state (snd (Fprint c b)) = state c"
  "netConn (rwc (snd (Fprint c b))) = netConn (rwc c)"
  "layers (rwc (snd (Fprint c b))) = layers (rwc c)"
  by (simp_all add: Fprint_def Conn_Write_def RWC_Write_def split: prod.splits option.splits)

lemma Fprint_wbuf:
  "state c AND OutputStreamClosed \<noteq> OutputStreamClosed \<Longrightarrow> werr (rwc c) = None \<Longrightarrow>
   Fprint c b = ((length b, None), c\<lparr>rwc := (rwc c)\<lparr>wbuf := wbuf (rwc c) @ b\<rparr>\<rparr>)"
  by (simp add: Fprint_def Conn_Write_def RWC_Write_def)

lemma extends_refl: "extends c c"
  by (simp add: extends_def)

lemma extends_dec: "extends c (c\<lparr>dec := d\<rparr>)"
  by (simp add: extends_def)

lemma extends_trans: "extends a b \<Longrightarrow> extends b c \<Longrightarrow> extends a c"
  by (auto simp: extends_def)

lemma extends_Fprint: "Fprint c b = (r, c') \<Longrightarrow> extends c c'"
  by (auto simp: extends_def Fprint_def Conn_Write_def RWC_Write_def
      split: if_splits option.splits prod.splits)

lemma extends_dec_Fprint: "Fprint (c\<lparr>dec := d\<rparr>) b = (r, c') \<Longrightarrow> extends c c'"
  using extends_Fprint [of "c\<lparr>dec := d\<rparr>" b r c'] by (simp add: extends_def)

lemma saslLoop_extends: "extends c (snd (saslLoop sel ctx cl c))"
proof (induction sel ctx cl c rule: saslLoop.induct)
  case (1 sel ctx cl conn)
  show ?case
  proof (cases ctx)
    case (Some e)
    then show ?thesis by (subst saslLoop.simps) (simp add: extends_refl)
  next
    case None
    obtain x d where tok: "Decoder_Token (dec conn) = (x, d)" by (cases "Decoder_Token (dec conn)")
    show ?thesis
    proof (cases x)
      case (Inl err)
      then show ?thesis using None tok by (subst saslLoop.simps) (simp add: extends_dec)
    next
      case (Inr tk)
      show ?thesis
      proof (cases tk)
        case (StartElement nm attrs)
        obtain ch su cerr d' where dc: "decodeSASLChallenge d nm True = ((ch, su, cerr), d')"
          by (metis prod.exhaust)
        show ?thesis
        proof (cases cerr)
          case (Some e)
          then show ?thesis using None tok Inr StartElement dc
            by (subst saslLoop.simps) (simp add: extends_dec)
        next
          case cn: None
          obtain mo resp serr cl' where st: "step sel cl ch = ((mo, resp, serr), cl')"
            by (metis prod.exhaust)
          show ?thesis
          proof (cases serr)
            case (Some e)
            then show ?thesis using None tok Inr StartElement dc cn st
              by (subst saslLoop.simps) (simp add: extends_dec)
          next
            case sn: None
            show ?thesis
            proof (cases "\<not> mo \<and> su")
              case True
              then show ?thesis using None tok Inr StartElement dc cn st sn
                by (subst saslLoop.simps) (simp add: extends_dec)
            next
              case nb: False
              obtain n werr c2 where fp: "Fprint (conn\<lparr>dec := d'\<rparr>) (responseElement resp) = ((n, werr), c2)"
                by (metis prod.exhaust)
              have e2: "extends conn c2" using fp by (rule extends_dec_Fprint)
              show ?thesis
              proof (cases werr)
                case (Some e)
                then show ?thesis using None tok Inr StartElement dc cn st sn nb fp e2
                  by (subst saslLoop.simps) auto
              next
                case wn: None
                show ?thesis
                proof (cases mo)
                  case False
                  then show ?thesis using None tok Inr StartElement dc cn st sn nb fp e2 wn
                    by (subst saslLoop.simps) auto
                next
                  case True
                  have "extends c2 (snd (saslLoop sel ctx cl' c2))"
                    using "1.IH" [OF None tok [symmetric] Inr StartElement dc [symmetric] refl refl
                        cn st [symmetric] refl refl sn nb fp [symmetric] refl wn True]
                    by simp
                  with e2 have "extends conn (snd (saslLoop sel ctx cl' c2))"
                    by (rule extends_trans)
                  then show ?thesis using None tok Inr StartElement dc cn st sn nb fp wn True
                    by (subst saslLoop.simps) auto
                qed
              qed
            qed
          qed
        qed
      qed (use None tok Inr in \<open>(subst saslLoop.simps, simp add: extends_dec)+\<close>)
    qed
  qed
qed

subsection \<open>STARTTLS as initiator\<close>

text \<open>
  C8: the initiator (a connection over a \<open>net.Conn\<close> whose \<open>Received\<close> bit is clear)
  writes \<open><starttls/>\<close> and reads the answer. When the answer is a \<open><failure/>\<close>
  element in the STARTTLS namespace and skipping to its closing tag succeeds, the
  handler returns \<open>EndStream\<close> with a nil error and the transport is not wrapped. When
  the answer is a \<open><proceed/>\<close> element in that namespace (skipped to its closing tag),
  the transport is wrapped in a client-side TLS layer and the handler returns
  \<open>Secure | StreamRestartRequired\<close> with a nil error. The bytes of \<open><starttls/>\<close>
  are on the transport when the output stream is open and the transport accepts them.
\<close>

theorem StartTLS_initiator:
  assumes "netConn (rwc conn)" and "state conn AND Received \<noteq> Received"
    and "pending (dec conn) = StartElement nm attrs # rest"
    and "Space nm = ns_StartTLS"
    and "skipTokens 0 rest = Some rest'"
  shows "(Local nm = ''failure'' \<longrightarrow>
            fst (StartTLS_Handler ctx conn) = (EndStream, None)
            \<and> layers (rwc (snd (StartTLS_Handler ctx conn))) = layers (rwc conn)
            \<and> pending (dec (snd (StartTLS_Handler ctx conn))) = rest')
         \<and> (Local nm = ''proceed'' \<longrightarrow>
              fst (StartTLS_Handler ctx conn) = (Secure OR StreamRestartRequired, None)
              \<and> rwc (snd (StartTLS_Handler ctx conn))
                  = tls_Client (rwc (snd (Fprint conn starttlsElement)))
              \<and> layers (rwc (snd (StartTLS_Handler ctx conn))) = ClientSide # layers (rwc conn)
              \<and> pending (dec (snd (StartTLS_Handler ctx conn))) = rest')
         \<and> (state conn AND OutputStreamClosed \<noteq> OutputStreamClosed \<and> werr (rwc conn) = None \<longrightarrow>
              wbuf (rwc (snd (StartTLS_Handler ctx conn))) = wbuf (rwc conn) @ starttlsElement)"
proof -
  let ?c1 = "snd (Fprint conn starttlsElement)"
  have d: "dec ?c1 = dec conn" and l: "layers (rwc ?c1) = layers (rwc conn)"
    by (simp_all add: Fprint_other)
  have tok: "Decoder_Token (dec ?c1) = (Inr (StartElement nm attrs), (dec conn)\<lparr>pending := rest\<rparr>)"
    using assms(3) by (simp add: Decoder_Token_def d)
  have sk: "Decoder_Skip ((dec conn)\<lparr>pending := rest\<rparr>) = (None, (dec conn)\<lparr>pending := rest'\<rparr>)"
    using assms(5) by (simp add: Decoder_Skip_def)
  have pf: "''proceed'' \<noteq> ''failure''" by simp
  have h: "StartTLS_Handler ctx conn =
             (if Local nm = ''proceed''
              then ((Secure OR StreamRestartRequired, None),
                    ?c1\<lparr>dec := (dec conn)\<lparr>pending := rest'\<rparr>, rwc := tls_Client (rwc ?c1)\<rparr>)
              else if Local nm = ''failure''
              then ((EndStream, None), ?c1\<lparr>dec := (dec conn)\<lparr>pending := rest'\<rparr>\<rparr>)
              else ((0, Some UnsupportedStanzaType), ?c1\<lparr>dec := (dec conn)\<lparr>pending := rest\<rparr>\<rparr>))"
    using assms(1,2,4) by (simp add: StartTLS_Handler_def Let_def tok sk)
  have w: "wbuf (rwc ?c1) = wbuf (rwc conn) @ starttlsElement"
    if "state conn AND OutputStreamClosed \<noteq> OutputStreamClosed" "werr (rwc conn) = None"
    using Fprint_wbuf [OF that, of starttlsElement] by simp
  show ?thesis
    using w by (simp add: h l tls_Client_def)
qed

theorem StartTLS_initiator_witness:
  "fst (StartTLS_Handler None
          (exampleConn 0 [StartElement \<lparr>Space = ns_StartTLS, Local = ''failure''\<rparr> [],
                          EndElement \<lparr>Space = ns_StartTLS, Local = ''failure''\<rparr>]))
     = (EndStream, None)
   \<and> fst (StartTLS_Handler None
          (exampleConn 0 [StartElement \<lparr>Space = ns_StartTLS, Local = ''proceed''\<rparr> [],
                          EndElement \<lparr>Space = ns_StartTLS, Local = ''proceed''\<rparr>]))
     = (Secure OR StreamRestartRequired, None)
   \<and> layers (rwc (snd (StartTLS_Handler None
          (exampleConn 0 [StartElement \<lparr>Space = ns_StartTLS, Local = ''proceed''\<rparr> [],
                          EndElement \<lparr>Space = ns_StartTLS, Local = ''proceed''\<rparr>]))))
     = [ClientSide]
   \<and> wbuf (rwc (snd (StartTLS_Handler None
          (exampleConn 0 [StartElement \<lparr>Space = ns_StartTLS, Local = ''proceed''\<rparr> [],
                          EndElement \<lparr>Space = ns_StartTLS, Local = ''proceed''\<rparr>]))))
     = starttlsElement"
proof -
  let ?f = "exampleConn 0 [StartElement \<lparr>Space = ns_StartTLS, Local = ''failure''\<rparr> [],
                          EndElement \<lparr>Space = ns_StartTLS, Local = ''failure''\<rparr>]
            :: (string list) Conn"
  let ?p = "exampleConn 0 [StartElement \<lparr>Space = ns_StartTLS, Local = ''proceed''\<rparr> [],
                          EndElement \<lparr>Space = ns_StartTLS, Local = ''proceed''\<rparr>]
            :: (string list) Conn"
  let ?nf = "\<lparr>Space = ns_StartTLS, Local = ''failure''\<rparr>"
  let ?np = "\<lparr>Space = ns_StartTLS, Local = ''proceed''\<rparr>"
  have n: "netConn (rwc (exampleConn 0 ts))" for ts
    by (simp add: exampleConn_def exampleRWC_def)
  have r: "state (exampleConn 0 ts) AND Received \<noteq> Received" for ts
    by (simp add: exampleConn_def Received_def)
  have pf: "pending (dec ?f) = StartElement ?nf [] # [EndElement ?nf]"
    and pp: "pending (dec ?p) = StartElement ?np [] # [EndElement ?np]"
    by (simp_all add: exampleConn_def)
  have sf: "Space ?nf = ns_StartTLS" and sp: "Space ?np = ns_StartTLS" by simp_all
  have kf: "skipTokens 0 [EndElement ?nf] = Some []"
    and kp: "skipTokens 0 [EndElement ?np] = Some []" by simp_all
  have o: "state ?p AND OutputStreamClosed \<noteq> OutputStreamClosed" "werr (rwc ?p) = None"
    "layers (rwc ?p) = []" "wbuf (rwc ?p) = []"
    by (simp_all add: exampleConn_def exampleRWC_def OutputStreamClosed_def)
  from StartTLS_initiator [OF n r pf sf kf, where ctx = None]
  have 1: "fst (StartTLS_Handler None ?f) = (EndStream, None)"
    by simp
  have lp: "Local ?np = ''proceed''" by simp
  from StartTLS_initiator [OF n r pp sp kp, where ctx = None] o(1,2) lp
  have 2: "fst (StartTLS_Handler None ?p) = (Secure OR StreamRestartRequired, None)"
    and t3: "layers (rwc (snd (StartTLS_Handler None ?p))) = ClientSide # layers (rwc ?p)"
    and t4: "wbuf (rwc (snd (StartTLS_Handler None ?p))) = wbuf (rwc ?p) @ starttlsElement"
    by blast+
  have 3: "layers (rwc (snd (StartTLS_Handler None ?p))) = [ClientSide]"
    unfolding t3 o(3) ..
  have 4: "wbuf (rwc (snd (StartTLS_Handler None ?p))) = starttlsElement"
    unfolding t4 o(4) by simp
  from 1 2 3 4 show ?thesis by blast
qed

subsection \<open>The initial response of SASL\<close>

text \<open>
  C7: as initiator, when a mechanism was selected and the first step of the SASL client
  returns the initial response \<open>resp\<close>, the first bytes that \<open>Negotiate\<close> writes to the
  connection are the \<open><auth/>\<close> element with the mechanism name, whose content is the
  single character \<open>=\<close> when \<open>resp\<close> has length zero and \<open>resp\<close> itself, unchanged,
  otherwise (the output stream being open and the transport accepting the bytes).
\<close>

theorem SASL_initial_response:
  assumes "state conn AND Received \<noteq> Received"
    and "selectMechanism mechanisms names = Some selected"
    and "mechName selected \<noteq> []"
    and "LocalAddr conn = Some addr"
    and "step selected
           (start selected \<lparr>authz = Identity (config conn), username = localpart addr,
                             password = Password (config conn), remote = names,
                             connState = (layers (rwc conn) \<noteq> [])\<rparr>) []
         = ((more', resp, None), cl1)"
    and "state conn AND OutputStreamClosed \<noteq> OutputStreamClosed"
    and "werr (rwc conn) = None"
  shows "\<exists>res conn' tl.
           SASL_Negotiate mechanisms ctx conn (Some names) = Return (res, conn')
           \<and> wbuf (rwc conn') =
               wbuf (rwc conn)
               @ ''<auth xmlns='' @ [CHR 0x27] @ ''urn:ietf:params:xml:ns:xmpp-sasl'' @ [CHR 0x27]
               @ '' mechanism='' @ [CHR 0x27] @ mechName selected @ [CHR 0x27] @ ''>''
               @ (if resp = [] then ''='' else resp)
               @ ''</auth>'' @ tl"
proof -
  let ?resp1 = "if length resp = 0 then [CHR ''=''] else resp"
  let ?auth = "authElement (mechName selected) ?resp1"
  let ?c1 = "conn\<lparr>rwc := (rwc conn)\<lparr>wbuf := wbuf (rwc conn) @ ?auth\<rparr>\<rparr>"
  have fp: "Fprint conn b = ((length b, None), conn\<lparr>rwc := (rwc conn)\<lparr>wbuf := wbuf (rwc conn) @ b\<rparr>\<rparr>)"
    for b using assms(6,7) by (rule Fprint_wbuf)
  have ex: "\<exists>res conn'. SASL_Negotiate mechanisms ctx conn (Some names) = Return (res, conn')
              \<and> extends ?c1 conn'"
  proof (cases more')
    case True
    have "SASL_Negotiate mechanisms ctx conn (Some names) = Return (saslLoop selected ctx cl1 ?c1)"
      using assms(1-5) True by (simp add: SASL_Negotiate_def Let_def fp)
    then show ?thesis
      using saslLoop_extends [of ?c1 selected ctx cl1]
      by (metis prod.collapse)
  next
    case False
    obtain x d where tok: "Decoder_Token (dec ?c1) = (x, d)" by (cases "Decoder_Token (dec ?c1)")
    show ?thesis
      using assms(1-5) False tok
      by (auto simp: SASL_Negotiate_def Let_def fp extends_dec
          split: sum.splits Token.splits prod.splits option.splits)
  qed
  then obtain res conn' tl
    where r: "SASL_Negotiate mechanisms ctx conn (Some names) = Return (res, conn')"
      and w: "wbuf (rwc conn') = wbuf (rwc ?c1) @ tl"
    by (auto simp: extends_def)
  have "wbuf (rwc conn') =
          wbuf (rwc conn)
          @ ''<auth xmlns='' @ [CHR 0x27] @ ''urn:ietf:params:xml:ns:xmpp-sasl'' @ [CHR 0x27]
          @ '' mechanism='' @ [CHR 0x27] @ mechName selected @ [CHR 0x27] @ ''>''
          @ (if resp = [] then ''='' else resp)
          @ ''</auth>'' @ tl"
    using w by (simp add: authElement_def apos_def)
  with r show ?thesis by blast
qed

theorem SASL_initial_response_witness:
  "(\<exists>res conn' tl.
      SASL_Negotiate [exampleMechanism ''ANONYMOUS'' []] None
        (exampleConn Secure [StartElement \<lparr>Space = ns_SASL, Local = ''success''\<rparr> [],
                             EndElement \<lparr>Space = ns_SASL, Local = ''success''\<rparr>])
        (Some [''PLAIN'', ''ANONYMOUS'']) = Return (res, conn')
      \<and> wbuf (rwc conn') =
          ''<auth xmlns='' @ [CHR 0x27] @ ''urn:ietf:params:xml:ns:xmpp-sasl'' @ [CHR 0x27]
          @ '' mechanism='' @ [CHR 0x27] @ ''ANONYMOUS'' @ [CHR 0x27] @ ''>=</auth>'' @ tl)
   \<and> (\<exists>res conn' tl.
      SASL_Negotiate [exampleMechanism ''PLAIN'' ''AG1lcmN1dGlvAHNlY3JldA==''] None
        (exampleConn Secure [StartElement \<lparr>Space = ns_SASL, Local = ''success''\<rparr> [],
                             EndElement \<lparr>Space = ns_SASL, Local = ''success''\<rparr>])
        (Some [''PLAIN'', ''ANONYMOUS'']) = Return (res, conn')
      \<and> wbuf (rwc conn') =
          ''<auth xmlns='' @ [CHR 0x27] @ ''urn:ietf:params:xml:ns:xmpp-sasl'' @ [CHR 0x27]
          @ '' mechanism='' @ [CHR 0x27] @ ''PLAIN'' @ [CHR 0x27]
          @ ''>AG1lcmN1dGlvAHNlY3JldA==</auth>'' @ tl)"
proof -
  let ?toks = "[StartElement \<lparr>Space = ns_SASL, Local = ''success''\<rparr> [],
                EndElement \<lparr>Space = ns_SASL, Local = ''success''\<rparr>]"
  let ?c = "exampleConn Secure ?toks :: (string list) Conn"
  let ?ma = "exampleMechanism ''ANONYMOUS'' []"
  let ?mp = "exampleMechanism ''PLAIN'' ''AG1lcmN1dGlvAHNlY3JldA==''"
  let ?names = "[''PLAIN'', ''ANONYMOUS'']"
  let ?opts = "\<lparr>authz = Identity (config ?c),
                username = localpart \<lparr>localpart = ''mercutio'', domainpart = ''example.net'',
                                       resourcepart = []\<rparr>,
                password = Password (config ?c), remote = ?names,
                connState = (layers (rwc ?c) \<noteq> [])\<rparr>"
  have a1: "state ?c AND Received \<noteq> Received"
    by (simp add: exampleConn_def Secure_def Received_def)
  have a2: "selectMechanism [?ma] ?names = Some ?ma"
    and a2': "selectMechanism [?mp] ?names = Some ?mp"
    by (simp_all add: selectMechanism_def exampleMechanism_def)
  have a3: "mechName ?ma \<noteq> []" and a3': "mechName ?mp \<noteq> []"
    by (simp_all add: exampleMechanism_def)
  have a4: "LocalAddr ?c = Some \<lparr>localpart = ''mercutio'', domainpart = ''example.net'',
                                  resourcepart = []\<rparr>"
    by (simp add: LocalAddr_def exampleConn_def Secure_def Received_def)
  have a5: "step ?ma (start ?ma ?opts) [] = ((False, [], None), ())"
    and a5': "step ?mp (start ?mp ?opts) [] = ((False, ''AG1lcmN1dGlvAHNlY3JldA=='', None), ())"
    by (simp_all add: exampleMechanism_def)
  have a6: "state ?c AND OutputStreamClosed \<noteq> OutputStreamClosed"
    by (simp add: exampleConn_def Secure_def OutputStreamClosed_def)
  have a7: "werr (rwc ?c) = None" and w0: "wbuf (rwc ?c) = []"
    by (simp_all add: exampleConn_def exampleRWC_def)
  have n1: "mechName ?ma = ''ANONYMOUS''" and n2: "mechName ?mp = ''PLAIN''"
    by (simp_all add: exampleMechanism_def)
  from SASL_initial_response [OF a1 a2 a3 a4 a5 a6 a7, of None]
  have 1: "\<exists>res conn' tl.
      SASL_Negotiate [?ma] None ?c (Some ?names) = Return (res, conn')
      \<and> wbuf (rwc conn') =
          ''<auth xmlns='' @ [CHR 0x27] @ ''urn:ietf:params:xml:ns:xmpp-sasl'' @ [CHR 0x27]
          @ '' mechanism='' @ [CHR 0x27] @ ''ANONYMOUS'' @ [CHR 0x27] @ ''>=</auth>'' @ tl"
    unfolding w0 n1 by simp
  from SASL_initial_response [OF a1 a2' a3' a4 a5' a6 a7, of None]
  have 2: "\<exists>res conn' tl.
      SASL_Negotiate [?mp] None ?c (Some ?names) = Return (res, conn')
      \<and> wbuf (rwc conn') =
          ''<auth xmlns='' @ [CHR 0x27] @ ''urn:ietf:params:xml:ns:xmpp-sasl'' @ [CHR 0x27]
          @ '' mechanism='' @ [CHR 0x27] @ ''PLAIN'' @ [CHR 0x27]
          @ ''>AG1lcmN1dGlvAHNlY3JldA==</auth>'' @ tl"
    unfolding w0 n2 by simp
  from 1 2 show ?thesis by blast
qed

subsection \<open>Constructing the SASL feature\<close>

text \<open>
  C9: constructing the SASL feature with an empty list of mechanisms panics; with at
  least one mechanism the constructor returns a feature whose \<open>Necessary\<close> mask is
  \<open>Secure\<close> and whose \<open>Prohibited\<close> mask is \<open>Authn\<close>.
\<close>

theorem SASL_feature:
  "SASL ([] :: 'cl Mechanism list) = Panic ''xmpp: Must specify at least 1 SASL mechanism''
   \<and> (mechanisms \<noteq> [] \<longrightarrow>
        (\<exists>f. SASL mechanisms = Return f \<and> Necessary f = Secure \<and> Prohibited f = Authn))"
  by (simp add: SASL_def)

theorem SASL_feature_witness:
  "\<exists>f. SASL [exampleMechanism ''PLAIN'' ''AG1lcmN1dGlvAHNlY3JldA==''] = Return f
       \<and> Necessary f = Secure \<and> Prohibited f = Authn"
proof -
  have "[exampleMechanism ''PLAIN'' ''AG1lcmN1dGlvAHNlY3JldA==''] \<noteq> []" by simp
  with SASL_feature [of "[exampleMechanism ''PLAIN'' ''AG1lcmN1dGlvAHNlY3JldA=='']"]
  show ?thesis by blast
qed

end
